theory Spec2Isabelle
  imports Main "HOL-Library.Word"
begin

section \<open>Data model of an entry record (core/ItemData.cpp)\<close>

text \<open>
  The plaintext of a field is a sequence of 8-bit units; a \<open>StringX\<close> is the same
  sequence read as characters (one \<open>TCHAR\<close> per element).  Integers keep their C
  widths: \<open>time_t\<close> is 64 bits, \<open>int32\<close> 32 bits, \<open>int16\<close> 16 bits.
\<close>

type_synonym StringX = string
type_synonym uuid_array_t = string
type_synonym time_t = "64 word"
type_synonym int32 = "32 word"
type_synonym int16 = "16 word"

text \<open>
  Modelled from the spec: the \<open>FieldType\<close> enumeration of Item.h is not part of the
  sources at hand.  Every tag that ItemData.cpp names is a constructor; the numeric
  tag values are abstracted.  A tag on the stream that carries no name in ItemData.cpp
  is one of \<open>UNNAMED_ITEM_FIELD b\<close> (inside the item-data range),
  \<open>ITEM_ATT_FIELD b\<close> (inside the attachment-record range) or \<open>UNNAMED_FIELD b\<close>
  (anywhere else), \<open>b\<close> being the raw byte.
\<close>

datatype FieldType =
    NAME | UUID | GROUP | TITLE | USER | NOTES | PASSWORD
  | CTIME | PMTIME | ATIME | XTIME | RMTIME
  | URL | AUTOTYPE | PWHIST | POLICY | XTIME_INT | RUNCMD | DCA | EMAIL
  | PROTECTED | SYMBOLS | SHIFTDCA | POLICYNAME | KBSHORTCUT | ATTREF
  | TWOFACTORKEY | TOTPCONFIG | TOTPSTARTTIME | TOTPTIMESTEP | TOTPLENGTH
  | DATA_ATT_TITLE | DATA_ATT_MEDIATYPE | DATA_ATT_FILENAME | DATA_ATT_MTIME
  | DATA_ATT_CONTENT
  | PASSKEY_CRED_ID | PASSKEY_RP_ID | PASSKEY_USER_HANDLE | PASSKEY_ALGO_ID
  | PASSKEY_PRIVATE_KEY | PASSKEY_SIGN_COUNT
  | BASEUUID | ALIASUUID | SHORTCUTUUID
  | ENTRYSIZE | PASSWORDLEN
  | END
  | UNNAMED_ITEM_FIELD "8 word" | ITEM_ATT_FIELD "8 word" | UNNAMED_FIELD "8 word"

datatype EntryType = ET_NORMAL | ET_ALIASBASE | ET_ALIAS | ET_SHORTCUTBASE | ET_SHORTCUT

datatype EntryStatus = ES_CLEAN | ES_ADDED | ES_MODIFIED | ES_DELETED

text \<open>
  \<open>m_fields\<close> is the map from tag to field plaintext, \<open>m_URFL\<close> the list of
  unknown record fields in the order they were stored.
\<close>

record CItemData =
  m_fields :: "FieldType \<rightharpoonup> string"
  m_URFL :: "(FieldType \<times> string) list"
  m_entrytype :: EntryType
  m_entrystatus :: EntryStatus

text \<open>
  How a call can fail.  \<open>ASSERT\<close> is a macro defined outside ItemData.cpp; the flag
  \<open>dbg\<close> taken by the functions below says whether assertions are compiled in.  With
  \<open>dbg\<close> a violated assertion ends the call with \<open>AssertFailed\<close>; without it the
  call goes on as the code after the assertion says.
\<close>

datatype error = AssertFailed | NullPointer | UninitialisedRead

definition ASSERT :: "bool \<Rightarrow> bool \<Rightarrow> (error + 'a) \<Rightarrow> error + 'a" where
  "ASSERT dbg p k = (if dbg \<and> \<not> p then Inl AssertFailed else k)"

definition bind_err :: "error + 'a \<Rightarrow> ('a \<Rightarrow> error + 'b) \<Rightarrow> error + 'b" where
  "bind_err x f = (case x of Inl e \<Rightarrow> Inl e | Inr v \<Rightarrow> f v)"

subsection \<open>The field store (class CItem)\<close>

text \<open>
  Modelled from the spec: class CItem (Item.cpp) is not part of the sources at hand.
  The spec's Field Store is a mapping from field tag to field value.  A stored field is
  never empty (\<open>WriteIfSet\<close> asserts it of every field it finds), so storing an empty
  value removes the field.
\<close>

definition IsFieldSet :: "CItemData \<Rightarrow> FieldType \<Rightarrow> bool" where
  "IsFieldSet r ft = (m_fields r ft \<noteq> None)"

definition GetField :: "CItemData \<Rightarrow> FieldType \<Rightarrow> StringX" where
  "GetField r ft = (case m_fields r ft of None \<Rightarrow> [] | Some v \<Rightarrow> v)"

definition erase :: "CItemData \<Rightarrow> FieldType \<Rightarrow> CItemData" where
  "erase r ft = r\<lparr>m_fields := (m_fields r)(ft := None)\<rparr>"

definition ClearField :: "CItemData \<Rightarrow> FieldType \<Rightarrow> CItemData" where
  "ClearField r ft = erase r ft"

definition CItem_SetField :: "CItemData \<Rightarrow> FieldType \<Rightarrow> string \<Rightarrow> nat \<Rightarrow> CItemData" where
  \<comment> \<open>\<open>CItem::SetField(ft, data, len)\<close>\<close>
  "CItem_SetField r ft data len =
     (if len \<noteq> 0 then r\<lparr>m_fields := (m_fields r)(ft \<mapsto> take len data)\<rparr>
      else erase r ft)"

definition CItem_SetField_str :: "CItemData \<Rightarrow> FieldType \<Rightarrow> StringX \<Rightarrow> CItemData" where
  \<comment> \<open>\<open>CItem::SetField(ft, const StringX &)\<close>\<close>
  "CItem_SetField_str r ft v = CItem_SetField r ft v (length v)"

definition CItem_Clear :: "CItemData \<Rightarrow> CItemData" where
  "CItem_Clear r = r\<lparr>m_fields := Map.empty, m_URFL := []\<rparr>"

definition SetUnknownField :: "CItemData \<Rightarrow> FieldType \<Rightarrow> nat \<Rightarrow> string \<Rightarrow> CItemData" where
  "SetUnknownField r ty len data = r\<lparr>m_URFL := m_URFL r @ [(ty, take len data)]\<rparr>"

definition GetSize :: "CItemData \<Rightarrow> nat" where
  "GetSize r = (\<Sum>ft \<in> dom (m_fields r). length (the (m_fields r ft)))
             + sum_list (map (\<lambda>u. length (snd u)) (m_URFL r))"

subsection \<open>Little-endian integers (Util.h: getInt, putInt)\<close>

text \<open>
  Modelled from the spec: Util.h is not part of the sources at hand.  Integers are laid
  out least significant byte first (the spec's chunk length is little-endian).
\<close>

fun le_nat :: "string \<Rightarrow> nat" where
  "le_nat [] = 0"
| "le_nat (c # cs) = of_char c + 256 * le_nat cs"

fun nat_le :: "nat \<Rightarrow> nat \<Rightarrow> string" where
  "nat_le 0 n = []"
| "nat_le (Suc k) n = char_of (n mod 256) # nat_le k (n div 256)"

definition getInt32 :: "string \<Rightarrow> int32" where
  "getInt32 v = word_of_nat (le_nat (take 4 v))"

definition getInt16 :: "string \<Rightarrow> int16" where
  "getInt16 v = word_of_nat (le_nat (take 2 v))"

definition getInt64 :: "string \<Rightarrow> time_t" where
  "getInt64 v = word_of_nat (le_nat (take 8 v))"

definition putInt32 :: "int32 \<Rightarrow> string" where
  "putInt32 i = nat_le 4 (unat i)"

definition putInt16 :: "int16 \<Rightarrow> string" where
  "putInt16 i = nat_le 2 (unat i)"

definition putInt64 :: "time_t \<Rightarrow> string" where
  "putInt64 t = nat_le 8 (unat t)"

definition read_fixed :: "bool \<Rightarrow> nat \<Rightarrow> (string \<Rightarrow> 'a) \<Rightarrow> 'a \<Rightarrow> string option \<Rightarrow> error + 'a" where
  \<comment> \<open>The pattern shared by \<open>GetXTimeInt\<close>, \<open>GetKBShortcut\<close>, \<open>GetDCA\<close> and
      \<open>CItem::GetTime\<close>: an absent or empty field reads as the default; otherwise the
      length is asserted and the integer is taken from the front of the buffer, which
      holds no more than the bytes of the field.\<close>
  "read_fixed dbg n get dflt fld =
     (case fld of
        None \<Rightarrow> Inr dflt
      | Some v \<Rightarrow>
          if length v \<noteq> 0 then
            ASSERT dbg (length v = n)
              (if length v < n then Inl UninitialisedRead else Inr (get v))
          else Inr dflt)"

subsection \<open>Entry kind\<close>

definition IsNormal :: "CItemData \<Rightarrow> bool" where
  "IsNormal r = (m_entrytype r = ET_NORMAL)"

definition IsAliasBase :: "CItemData \<Rightarrow> bool" where
  "IsAliasBase r = (m_entrytype r = ET_ALIASBASE)"

definition IsShortcutBase :: "CItemData \<Rightarrow> bool" where
  "IsShortcutBase r = (m_entrytype r = ET_SHORTCUTBASE)"

definition IsBase :: "CItemData \<Rightarrow> bool" where
  "IsBase r = (IsAliasBase r \<or> IsShortcutBase r)"

definition IsAlias :: "CItemData \<Rightarrow> bool" where
  "IsAlias r = (m_entrytype r = ET_ALIAS)"

definition IsShortcut :: "CItemData \<Rightarrow> bool" where
  "IsShortcut r = (m_entrytype r = ET_SHORTCUT)"

definition IsDependent :: "CItemData \<Rightarrow> bool" where
  "IsDependent r = (IsAlias r \<or> IsShortcut r)"

definition HasUUID :: "CItemData \<Rightarrow> bool" where
  "HasUUID r =
     (((m_entrytype r = ET_NORMAL \<or>
        m_entrytype r = ET_ALIASBASE \<or>
        m_entrytype r = ET_SHORTCUTBASE) \<and> IsFieldSet r UUID) \<or>
      (m_entrytype r = ET_ALIAS \<and> IsFieldSet r ALIASUUID) \<or>
      (m_entrytype r = ET_SHORTCUT \<and> IsFieldSet r SHORTCUTUUID))"

subsection \<open>Unique ids\<close>

definition NullUUID :: uuid_array_t where
  "NullUUID = replicate 16 (CHR 0x00)"

definition GetUUID :: "CItemData \<Rightarrow> FieldType \<Rightarrow> uuid_array_t" where
  \<comment> \<open>\<open>GetUUID(uuid_array_t &, FieldType ft = END)\<close>; the result is the array written.\<close>
  "GetUUID r ft =
     (let fiter =
        (if ft \<noteq> END then m_fields r ft
         else (case m_entrytype r of
                 ET_NORMAL \<Rightarrow> m_fields r UUID
               | ET_ALIASBASE \<Rightarrow> m_fields r UUID
               | ET_SHORTCUTBASE \<Rightarrow> m_fields r UUID
               | ET_ALIAS \<Rightarrow> m_fields r ALIASUUID
               | ET_SHORTCUT \<Rightarrow> m_fields r SHORTCUTUUID))
      in case fiter of None \<Rightarrow> NullUUID | Some v \<Rightarrow> v)"

definition SetUUID :: "CItemData \<Rightarrow> uuid_array_t \<Rightarrow> FieldType \<Rightarrow> CItemData" where
  "SetUUID r uuid ft = CItem_SetField r ft uuid 16"

definition SetEntryType :: "CItemData \<Rightarrow> EntryType \<Rightarrow> CItemData" where
  "SetEntryType r et =
     (let r1 =
        (if m_entrytype r = ET_NORMAL \<or> m_entrytype r = ET_ALIASBASE \<or>
            m_entrytype r = ET_SHORTCUTBASE then
           (if et = ET_ALIAS \<or> et = ET_SHORTCUT then
              let uuid = GetUUID r UUID;
                  r' = SetUUID r uuid (if et = ET_ALIAS then ALIASUUID else SHORTCUTUUID)
              in erase r' UUID
            else r)
         else if et = ET_NORMAL \<or> m_entrytype r = ET_ALIASBASE \<or>
                 m_entrytype r = ET_SHORTCUTBASE then
           (if m_entrytype r = ET_ALIAS \<or> m_entrytype r = ET_SHORTCUT then
              let uuid = GetUUID r (if m_entrytype r = ET_ALIAS then ALIASUUID else SHORTCUTUUID);
                  r' = SetUUID r uuid UUID
              in erase r' (if m_entrytype r = ET_ALIAS then ALIASUUID else SHORTCUTUUID)
            else r)
         else r)
      in r1\<lparr>m_entrytype := et\<rparr>)"

subsection \<open>Effective field values\<close>

definition base_fields :: "FieldType list" where
  "base_fields =
     [PASSWORD, PWHIST, TWOFACTORKEY, TOTPCONFIG, TOTPSTARTTIME, TOTPTIMESTEP, TOTPLENGTH]"

definition deref :: "CItemData option \<Rightarrow> (CItemData \<Rightarrow> error + 'a) \<Rightarrow> error + 'a" where
  \<comment> \<open>\<open>pbci->...\<close>: a null pointer cannot be followed.\<close>
  "deref p f = (case p of None \<Rightarrow> Inl NullPointer | Some b \<Rightarrow> f b)"

definition GetEffectiveFieldValue ::
  "bool \<Rightarrow> CItemData \<Rightarrow> FieldType \<Rightarrow> CItemData option \<Rightarrow> error + StringX" where
  "GetEffectiveFieldValue dbg r ft pbci =
     (if IsNormal r \<or> IsBase r then Inr (GetField r ft)
      else
        ASSERT dbg (IsDependent r)
       (ASSERT dbg (pbci \<noteq> None)
         (if IsAlias r then
            (if ft \<in> set base_fields then deref pbci (\<lambda>b. Inr (GetField b ft))
             else Inr (GetField r ft))
          else if IsShortcut r then
            (if ft = GROUP \<or> ft = TITLE \<or> ft = USER then Inr (GetField r ft)
             else deref pbci (\<lambda>b. Inr (GetField b ft)))
          else ASSERT dbg False (Inr []))))"

subsection \<open>Integer and time accessors\<close>

definition GetXTimeInt :: "bool \<Rightarrow> CItemData \<Rightarrow> error + int32" where
  "GetXTimeInt dbg r = read_fixed dbg 4 getInt32 0 (m_fields r XTIME_INT)"

definition GetKBShortcut :: "bool \<Rightarrow> CItemData \<Rightarrow> error + int32" where
  "GetKBShortcut dbg r = read_fixed dbg 4 getInt32 0 (m_fields r KBSHORTCUT)"

text \<open>
  Modelled from the spec: \<open>CItem::GetTime\<close> (Item.cpp) and \<open>GetPasswordLength\<close>
  (ItemData.h) are not part of the sources at hand.  A time is kept in the store in the
  native width of \<open>time_t\<close> and an unset time reads as 0; the password length is the
  length of the PASSWORD text.
\<close>

definition CItem_GetTime :: "bool \<Rightarrow> CItemData \<Rightarrow> FieldType \<Rightarrow> error + time_t" where
  "CItem_GetTime dbg r whichtime = read_fixed dbg 8 getInt64 0 (m_fields r whichtime)"

definition GetPasswordLength :: "CItemData \<Rightarrow> nat" where
  "GetPasswordLength r = length (GetField r PASSWORD)"

subsection \<open>Matcher\<close>

text \<open>
  Modelled from the spec: PWSMatch.h is not part of the sources at hand.  \<open>iFunction\<close>
  is an int that holds a \<open>PWSMatch::MatchRule\<close>; the four rules ItemData.cpp names are
  constructors, any other value is \<open>MR_OTHER\<close>.  The comparison functions
  \<open>PWSMatch::Match\<close> are parameters, and so is the C library's conversion of a time to
  the start of its local day (\<open>localtime_s\<close>, zeroing of hour, minute and second,
  \<open>mktime\<close>), which is \<open>None\<close> when \<open>localtime_s\<close> reports an error.
\<close>

datatype MatchRule = MR_PRESENT | MR_NOTPRESENT | MR_IS | MR_ISNOT | MR_OTHER int

record PWSMatch =
  Match_bool :: "bool \<Rightarrow> MatchRule \<Rightarrow> bool"
  Match_int :: "int32 \<Rightarrow> int32 \<Rightarrow> int32 \<Rightarrow> MatchRule \<Rightarrow> bool"
  Match_time :: "time_t \<Rightarrow> time_t \<Rightarrow> time_t \<Rightarrow> MatchRule \<Rightarrow> bool"

definition Matches_int ::
  "bool \<Rightarrow> PWSMatch \<Rightarrow> CItemData \<Rightarrow> int32 \<Rightarrow> int32 \<Rightarrow> FieldType \<Rightarrow> MatchRule \<Rightarrow> error + bool" where
  \<comment> \<open>\<open>Matches(int num1, int num2, int iObject, int iFunction)\<close>\<close>
  "Matches_int dbg pm r num1 num2 iObject iFunction =
     (let compare = (\<lambda>iValue.
            let bValue = (iValue \<noteq> 0) in
            if iFunction = MR_PRESENT \<or> iFunction = MR_NOTPRESENT then
              Inr (Match_bool pm bValue iFunction)
            else if \<not> bValue then Inr False
            else Inr (Match_int pm num1 num2 iValue iFunction))
      in
        if iObject = XTIME_INT then bind_err (GetXTimeInt dbg r) compare
        else if iObject = ENTRYSIZE then compare (word_of_nat (GetSize r))
        else if iObject = PASSWORDLEN then compare (word_of_nat (GetPasswordLength r))
        else if iObject = KBSHORTCUT then bind_err (GetKBShortcut dbg r) compare
        else ASSERT dbg False (Inr False))"

definition MatchesTime ::
  "bool \<Rightarrow> PWSMatch \<Rightarrow> (time_t \<Rightarrow> time_t option) \<Rightarrow> CItemData \<Rightarrow>
   time_t \<Rightarrow> time_t \<Rightarrow> FieldType \<Rightarrow> MatchRule \<Rightarrow> error + bool" where
  "MatchesTime dbg pm day_start r time1 time2 iObject iFunction =
     (if iObject = CTIME \<or> iObject = PMTIME \<or> iObject = ATIME \<or> iObject = XTIME \<or>
         iObject = RMTIME then
        bind_err (CItem_GetTime dbg r iObject) (\<lambda>tValue.
          let bValue = (tValue \<noteq> 0) in
          if iFunction = MR_PRESENT \<or> iFunction = MR_NOTPRESENT then
            Inr (Match_bool pm bValue iFunction)
          else if \<not> bValue then Inr False
          else
            (let err = (day_start tValue = None) in
             ASSERT dbg (\<not> err)
               (let testtime = (case day_start tValue of None \<Rightarrow> 0 | Some t \<Rightarrow> t)
                in Inr (Match_time pm time1 time2 testtime iFunction))))
      else ASSERT dbg False (Inr False))"

subsection \<open>Collaborators outside ItemData.cpp\<close>

text \<open>
  What ItemData.cpp calls and does not define is a parameter:
  the conversions between a wide-character text and UTF-8 (\<open>pws_os::wcstombs\<close>,
  \<open>CUTF8Conv::FromUTF8\<close>), the on-disk forms of a time (class \<open>PWStime\<close> with its
  length \<open>TIME_LEN\<close>, and \<open>PWSUtil::pull_time\<close> that reads a time of any on-disk
  length), the range of double-click actions of \<open>PWSprefs\<close>, the two preferences for
  the password history, the formatting of a time as a date, and the localized word for
  an unknown date.
\<close>

record Env =
  wcstombs :: "StringX \<Rightarrow> string"
  FromUTF8 :: "string \<Rightarrow> StringX option"
  PWStime :: "time_t \<Rightarrow> string"
  TIME_LEN :: nat
  pull_time :: "string \<Rightarrow> time_t option"
  minDCA :: int16
  maxDCA :: int16
  SavePasswordHistory :: bool
  NumPWHistoryDefault :: nat
  ConvertToDateTimeString :: "time_t \<Rightarrow> StringX"
  IDSC_UNKNOWN :: StringX

subsection \<open>Text of an id (class CUUID) and string helpers\<close>

text \<open>
  Modelled from the spec: class CUUID (os/UUID.cpp) and \<open>ToLower\<close> (StringX.cpp) are not
  part of the sources at hand.  The text of an id is the lowercase hex of its 16 bytes,
  two digits a byte, 32 characters in all; an id is built from such a text by reading
  the digits back.  \<open>ToLower\<close> maps the letters A to Z to a to z.
\<close>

definition hexdigits :: string where
  "hexdigits = ''0123456789abcdef''"

definition hex_of_byte :: "char \<Rightarrow> string" where
  "hex_of_byte c = [hexdigits ! (of_char c div 16), hexdigits ! (of_char c mod 16)]"

definition CUUID_to_StringX :: "uuid_array_t \<Rightarrow> StringX" where
  "CUUID_to_StringX u = concat (map hex_of_byte (take 16 u))"

definition is_hex_digit :: "char \<Rightarrow> bool" where
  "is_hex_digit c = (c \<in> set ''0123456789abcdefABCDEF'')"

definition hexval :: "char \<Rightarrow> nat" where
  "hexval c =
     (let n = (of_char c :: nat) in
      if 48 \<le> n \<and> n \<le> 57 then n - 48
      else if 97 \<le> n \<and> n \<le> 102 then n - 87
      else if 65 \<le> n \<and> n \<le> 70 then n - 55
      else 0)"

fun hex_pairs :: "string \<Rightarrow> string" where
  "hex_pairs (a # b # cs) = char_of (16 * hexval a + hexval b) # hex_pairs cs"
| "hex_pairs cs = []"

definition CUUID_of_StringX :: "StringX \<Rightarrow> uuid_array_t" where
  "CUUID_of_StringX s = hex_pairs (take 32 s)"

definition ToLower_char :: "char \<Rightarrow> char" where
  "ToLower_char c =
     (let n = (of_char c :: nat) in if 65 \<le> n \<and> n \<le> 90 then char_of (n + 32) else c)"

definition ToLower :: "StringX \<Rightarrow> StringX" where
  "ToLower s = map ToLower_char s"

definition substr :: "string \<Rightarrow> nat \<Rightarrow> nat \<Rightarrow> string" where
  \<comment> \<open>\<open>s.substr(pos, n)\<close>, called with \<open>pos \<le> s.length()\<close> only\<close>
  "substr s pos n = take n (drop pos s)"

definition substr_from :: "string \<Rightarrow> nat \<Rightarrow> string" where
  \<comment> \<open>\<open>s.substr(pos)\<close>\<close>
  "substr_from s pos = drop pos s"

fun find_first_not_of :: "string \<Rightarrow> string \<Rightarrow> nat option" where
  \<comment> \<open>\<open>None\<close> is \<open>npos\<close>\<close>
  "find_first_not_of [] cs = None"
| "find_first_not_of (x # xs) cs =
     (if x \<in> set cs then map_option Suc (find_first_not_of xs cs) else Some 0)"

subsection \<open>The placeholder password of the legacy format\<close>

definition GetPassword :: "CItemData \<Rightarrow> StringX" where
  "GetPassword r = GetField r PASSWORD"

definition SetPassword :: "CItemData \<Rightarrow> StringX \<Rightarrow> CItemData" where
  "SetPassword r password = CItem_SetField_str r PASSWORD password"

definition ParseSpecialPasswords :: "bool \<Rightarrow> CItemData \<Rightarrow> error + CItemData" where
  "ParseSpecialPasswords dbg r =
     (let csMyPassword = GetPassword r in
      if length csMyPassword = 36 then
        (let cs_possibleUUID = ToLower (substr csMyPassword 2 32) in
         if ((substr csMyPassword 0 2 = ''[['' \<and>
              substr_from csMyPassword (length csMyPassword - 2) = '']]'') \<or>
             (substr csMyPassword 0 2 = ''[~'' \<and>
              substr_from csMyPassword (length csMyPassword - 2) = ''~]'')) \<and>
            find_first_not_of cs_possibleUUID ''0123456789abcdef'' = None then
           (let buuid = CUUID_of_StringX cs_possibleUUID;
                r1 = SetUUID r buuid BASEUUID;
                uuid = GetUUID r1 END
            in bind_err
                 (if substr csMyPassword 0 2 = ''[['' then Inr ALIASUUID
                  else if substr csMyPassword 0 2 = ''[~'' then Inr SHORTCUTUUID
                  else ASSERT dbg False (Inr UUID))
                 (\<lambda>ft. Inr (SetUUID (ClearField r1 UUID) uuid ft)))
         else Inr r)
      else Inr r)"

definition SetSpecialPasswords :: "bool \<Rightarrow> CItemData \<Rightarrow> error + CItemData" where
  "SetSpecialPasswords dbg r =
     (if IsDependent r then
        ASSERT dbg (IsFieldSet r BASEUUID)
          (let base_uuid = GetUUID r BASEUUID in
           ASSERT dbg (base_uuid \<noteq> NullUUID)
          (ASSERT dbg (base_uuid \<noteq> GetUUID r END)
             (if IsAlias r then
                Inr (SetPassword r (''[['' @ CUUID_to_StringX base_uuid @ '']]''))
              else if IsShortcut r then
                Inr (SetPassword r (''[~'' @ CUUID_to_StringX base_uuid @ ''~]''))
              else ASSERT dbg False (Inr (SetPassword r [])))))
      else Inr r)"

subsection \<open>The file (classes PWSfile, PWSfileV4)\<close>

text \<open>
  Modelled from the spec: PWSfile.h is not part of the sources at hand.  The file is
  the spec's sequential reader/writer: a sequence of chunks (tag, value), the length
  of a chunk being the length of its value.  \<open>WriteField\<close> appends a chunk and returns
  the number of bytes it wrote, \<open>ReadField\<close> takes the next chunk and returns the
  number of bytes it read, nothing when the input is at its end; a chunk is one tag
  byte, four length bytes and the value.  \<open>timeFieldLen\<close> is the width of a time on
  disk for the format generation of the file.
\<close>

record PWSfile =
  timeFieldLen :: nat
  chunks :: "(FieldType \<times> string) list"

datatype PWSfile_status = SUCCESS | FAILURE | END_OF_FILE

definition WriteField :: "PWSfile \<Rightarrow> FieldType \<Rightarrow> string \<Rightarrow> nat \<Rightarrow> nat \<times> PWSfile" where
  "WriteField out ty data len =
     (5 + len, out\<lparr>chunks := chunks out @ [(ty, take len data)]\<rparr>)"

definition ReadField :: "PWSfile \<Rightarrow> (nat \<times> FieldType \<times> string \<times> nat \<times> PWSfile) option" where
  \<comment> \<open>the result is (bytes read, type, utf8, utf8Len, the file after the read)\<close>
  "ReadField inp =
     (case chunks inp of
        [] \<Rightarrow> None
      | (ty, data) # rest \<Rightarrow>
          Some (5 + length data, ty, data, length data, inp\<lparr>chunks := rest\<rparr>))"

text \<open>
  Modelled from the spec: the range tests of Item.h.  A tag is an item-data field when
  it lies in the item-data range, an attachment field when it lies in the range of
  attachment records.  END and the two virtual fields of the matcher lie in neither.
\<close>

definition IsItemAttField :: "FieldType \<Rightarrow> bool" where
  "IsItemAttField ty = (case ty of ITEM_ATT_FIELD b \<Rightarrow> True | _ \<Rightarrow> False)"

definition IsItemDataField :: "FieldType \<Rightarrow> bool" where
  "IsItemDataField ty =
     (case ty of
        END \<Rightarrow> False | ENTRYSIZE \<Rightarrow> False | PASSWORDLEN \<Rightarrow> False
      | ITEM_ATT_FIELD b \<Rightarrow> False | UNNAMED_FIELD b \<Rightarrow> False
      | _ \<Rightarrow> True)"

subsection \<open>Setters\<close>

text \<open>
  Modelled from the spec: \<open>CItem::SetTime\<close>, \<open>CItem::SetTextField\<close> and
  \<open>CItem::SetTimeField\<close> (Item.cpp) are not part of the sources at hand.  A time is
  stored in the native width of \<open>time_t\<close>; a text field is converted from UTF-8 and a
  time field from its on-disk form, and the field is left alone when the conversion
  fails.
\<close>

definition CItem_SetTime :: "CItemData \<Rightarrow> FieldType \<Rightarrow> time_t \<Rightarrow> CItemData" where
  "CItem_SetTime r whichtime t = CItem_SetField r whichtime (putInt64 t) 8"

definition SetTextField :: "Env \<Rightarrow> CItemData \<Rightarrow> FieldType \<Rightarrow> string \<Rightarrow> nat \<Rightarrow> bool \<times> CItemData" where
  "SetTextField env r ft data len =
     (case FromUTF8 env (take len data) of
        None \<Rightarrow> (False, r)
      | Some str \<Rightarrow> (True, CItem_SetField_str r ft str))"

definition SetTimeField :: "Env \<Rightarrow> CItemData \<Rightarrow> FieldType \<Rightarrow> string \<Rightarrow> nat \<Rightarrow> bool \<times> CItemData" where
  "SetTimeField env r ft data len =
     (case pull_time env (take len data) of
        None \<Rightarrow> (False, r)
      | Some t \<Rightarrow> (True, CItem_SetTime r ft t))"

definition SetXTimeInt :: "CItemData \<Rightarrow> int32 \<Rightarrow> CItemData" where
  "SetXTimeInt r xint = CItem_SetField r XTIME_INT (putInt32 xint) 4"

definition SetDCA :: "CItemData \<Rightarrow> int16 \<Rightarrow> bool \<Rightarrow> CItemData" where
  "SetDCA r iDCA bShift = CItem_SetField r (if bShift then SHIFTDCA else DCA) (putInt16 iDCA) 2"

definition SetShiftDCA :: "CItemData \<Rightarrow> int16 \<Rightarrow> CItemData" where
  "SetShiftDCA r iDCA = SetDCA r iDCA True"

definition SetProtected :: "CItemData \<Rightarrow> bool \<Rightarrow> CItemData" where
  "SetProtected r bOnOff =
     (if bOnOff then CItem_SetField r PROTECTED [CHR 0x01] 1 else erase r PROTECTED)"

definition SetKBShortcut :: "CItemData \<Rightarrow> int32 \<Rightarrow> CItemData" where
  "SetKBShortcut r iKBShortcut = CItem_SetField r KBSHORTCUT (putInt32 iKBShortcut) 4"

definition SetPWHistory :: "CItemData \<Rightarrow> StringX \<Rightarrow> CItemData" where
  "SetPWHistory r PWHistory =
     (let pwh = (if PWHistory = ''0'' \<or> PWHistory = ''00000'' then [] else PWHistory)
      in CItem_SetField_str r PWHIST pwh)"

definition pull32 :: "bool \<Rightarrow> string \<Rightarrow> nat \<Rightarrow> error + int32 option" where
  \<comment> \<open>\<open>pull(int32 &, data, len)\<close>: \<open>None\<close> is the result false\<close>
  "pull32 dbg data len =
     (if len = 4 then
        (if length data < 4 then Inl UninitialisedRead else Inr (Some (getInt32 data)))
      else ASSERT dbg False (Inr None))"

definition pull16 :: "bool \<Rightarrow> string \<Rightarrow> nat \<Rightarrow> error + int16 option" where
  "pull16 dbg data len =
     (if len = 2 then
        (if length data < 2 then Inl UninitialisedRead else Inr (Some (getInt16 data)))
      else ASSERT dbg False (Inr None))"

definition pull8 :: "bool \<Rightarrow> string \<Rightarrow> nat \<Rightarrow> error + char option" where
  "pull8 dbg data len =
     (if len = 1 then
        (case data of [] \<Rightarrow> Inl UninitialisedRead | c # cs \<Rightarrow> Inr (Some c))
      else ASSERT dbg False (Inr None))"

definition SetField ::
  "bool \<Rightarrow> Env \<Rightarrow> CItemData \<Rightarrow> FieldType \<Rightarrow> string \<Rightarrow> nat \<Rightarrow> error + (bool \<times> CItemData)" where
  \<comment> \<open>\<open>CItemData::SetField(ft, data, len)\<close>; the cases in the order of the switch\<close>
  "SetField dbg env r ft data len =
     (if ft = NAME then ASSERT dbg False (Inr (False, r))
      else if ft \<in> set [UUID, BASEUUID, ALIASUUID, SHORTCUTUUID, ATTREF] then
        ASSERT dbg (len = 16)
          (if len < 16 then Inr (False, r)
           else Inr (True, SetUUID r (take 16 data) ft))
      else if ft \<in> set [GROUP, TITLE, USER, NOTES, PASSWORD, TWOFACTORKEY, POLICY, URL,
                         AUTOTYPE, PWHIST, RUNCMD, EMAIL, SYMBOLS, POLICYNAME,
                         DATA_ATT_TITLE, DATA_ATT_MEDIATYPE, DATA_ATT_FILENAME,
                         PASSKEY_RP_ID] then
        Inr (SetTextField env r ft data len)
      else if ft \<in> set [TOTPCONFIG, TOTPTIMESTEP, TOTPLENGTH, DATA_ATT_CONTENT,
                         PASSKEY_CRED_ID, PASSKEY_USER_HANDLE, PASSKEY_ALGO_ID,
                         PASSKEY_PRIVATE_KEY, PASSKEY_SIGN_COUNT] then
        Inr (True, CItem_SetField r ft data len)
      else if ft \<in> set [CTIME, PMTIME, ATIME, XTIME, RMTIME, TOTPSTARTTIME,
                         DATA_ATT_MTIME] then
        Inr (SetTimeField env r ft data len)
      else if ft = XTIME_INT then
        bind_err (pull32 dbg data len)
          (\<lambda>p. case p of None \<Rightarrow> Inr (False, r) | Some i32 \<Rightarrow> Inr (True, SetXTimeInt r i32))
      else if ft = DCA then
        bind_err (pull16 dbg data len)
          (\<lambda>p. case p of None \<Rightarrow> Inr (False, r) | Some i16 \<Rightarrow> Inr (True, SetDCA r i16 False))
      else if ft = SHIFTDCA then
        bind_err (pull16 dbg data len)
          (\<lambda>p. case p of None \<Rightarrow> Inr (False, r) | Some i16 \<Rightarrow> Inr (True, SetShiftDCA r i16))
      else if ft = PROTECTED then
        bind_err (pull8 dbg data len)
          (\<lambda>p. case p of None \<Rightarrow> Inr (False, r)
                | Some uc \<Rightarrow> Inr (True, SetProtected r (uc \<noteq> CHR 0x00)))
      else if ft = KBSHORTCUT then
        bind_err (pull32 dbg data 4)
          (\<lambda>p. case p of None \<Rightarrow> Inr (False, r)
                | Some i32 \<Rightarrow> Inr (True, SetKBShortcut r i32))
      else if ft = END then Inr (True, r)
      else Inr (True, SetUnknownField r ft len data))"

subsection \<open>Reading a record\<close>

definition Clear :: "CItemData \<Rightarrow> CItemData" where
  "Clear r = (CItem_Clear r)\<lparr>m_entrytype := ET_NORMAL, m_entrystatus := ES_CLEAN\<rparr>"

text \<open>
  How the loop of \<open>Read\<close> ends: it falls through to the code after it with a status
  (\<open>break\<close> after a failed \<open>SetField\<close>, or the loop condition turning false), or
  \<open>Read\<close> returns from inside it with the negated count of bytes read.
\<close>

datatype loop_end = Fell_through PWSfile_status | Early_return nat

datatype body_end =
    Continue CItemData nat PWSfile
  | Stop loop_end CItemData nat PWSfile

definition Read_body ::
  "bool \<Rightarrow> Env \<Rightarrow> PWSfile \<Rightarrow> CItemData \<Rightarrow> nat \<Rightarrow> error + body_end" where
  \<comment> \<open>One pass through the body of the do-while loop, and the part
      \<open>type != END && fieldLen > 0\<close> of its condition: \<open>Continue\<close> when that part holds.\<close>
  "Read_body dbg env inp r numread =
     (case ReadField inp of
        None \<Rightarrow> Inr (Stop (Fell_through SUCCESS) r numread inp)
      | Some (fieldLen, ty, utf8, utf8Len, inp') \<Rightarrow>
          (let numread' = numread + fieldLen;
               after = (\<lambda>r'. if ty \<noteq> END \<and> fieldLen > 0
                              then Inr (Continue r' numread' inp')
                              else Inr (Stop (Fell_through SUCCESS) r' numread' inp'))
           in if fieldLen > 0 then
                (if IsItemDataField ty then
                   bind_err (SetField dbg env r ty utf8 utf8Len)
                     (\<lambda>(ok, r'). if \<not> ok
                                   then Inr (Stop (Fell_through FAILURE) r' numread' inp')
                                   else after r')
                 else if IsItemAttField ty then
                   Inr (Stop (Early_return numread') r numread' inp')
                 else if ty \<noteq> END then after (SetUnknownField r ty utf8Len utf8)
                 else after r)
              else after r))"

fun Read_loop ::
  "bool \<Rightarrow> Env \<Rightarrow> nat \<Rightarrow> PWSfile \<Rightarrow> CItemData \<Rightarrow> nat \<Rightarrow>
   error + (loop_end \<times> CItemData \<times> nat \<times> PWSfile)" where
  \<comment> \<open>The do-while loop, entered with the current value of \<open>emergencyExit\<close>; the test
      \<open>--emergencyExit > 0\<close> lets it go on when that value is at least 2.\<close>
  "Read_loop dbg env emergencyExit inp r numread =
     (case Read_body dbg env inp r numread of
        Inl e \<Rightarrow> Inl e
      | Inr (Stop x r' numread' inp') \<Rightarrow> Inr (x, r', numread', inp')
      | Inr (Continue r' numread' inp') \<Rightarrow>
          (case emergencyExit of
             Suc (Suc k) \<Rightarrow> Read_loop dbg env (Suc k) inp' r' numread'
           | _ \<Rightarrow> Inr (Fell_through SUCCESS, r', numread', inp')))"

declare Read_loop.simps [simp del]

datatype ReadReturn = RET PWSfile_status | NEG_NUMREAD nat

definition Read ::
  "bool \<Rightarrow> Env \<Rightarrow> PWSfile \<Rightarrow> CItemData \<Rightarrow> error + (ReadReturn \<times> CItemData \<times> PWSfile)" where
  \<comment> \<open>\<open>CItemData::Read(PWSfile *in)\<close>: the value returned, the record and the file after\<close>
  "Read dbg env inp r0 =
     bind_err (Read_loop dbg env 255 inp (Clear r0) 0)
       (\<lambda>(x, r, numread, inp').
          case x of
            Early_return n \<Rightarrow> Inr (NEG_NUMREAD n, r, inp')
          | Fell_through status \<Rightarrow>
              if numread > 0 then
                bind_err (ParseSpecialPasswords dbg r)
                  (\<lambda>r2.
                     if m_fields r2 UUID \<noteq> None then
                       Inr (RET status, r2\<lparr>m_entrytype := ET_NORMAL\<rparr>, inp')
                     else if m_fields r2 ALIASUUID \<noteq> None then
                       Inr (RET status, r2\<lparr>m_entrytype := ET_ALIAS\<rparr>, inp')
                     else if m_fields r2 SHORTCUTUUID \<noteq> None then
                       Inr (RET status, r2\<lparr>m_entrytype := ET_SHORTCUT\<rparr>, inp')
                     else ASSERT dbg False (Inr (RET status, r2, inp')))
              else Inr (RET END_OF_FILE, r, inp'))"

subsection \<open>Writing a record\<close>

definition GetDCA :: "bool \<Rightarrow> CItemData \<Rightarrow> bool \<Rightarrow> error + int16" where
  "GetDCA dbg r bShift =
     read_fixed dbg 2 getInt16 (- 1) (m_fields r (if bShift then SHIFTDCA else DCA))"

definition GetShiftDCA :: "bool \<Rightarrow> CItemData \<Rightarrow> error + int16" where
  "GetShiftDCA dbg r = GetDCA dbg r True"

definition TextFields :: "FieldType list" where
  "TextFields = [GROUP, TITLE, USER, PASSWORD, TWOFACTORKEY,
                 NOTES, URL, AUTOTYPE, POLICY,
                 PWHIST, RUNCMD, EMAIL,
                 SYMBOLS, POLICYNAME,
                 DATA_ATT_TITLE, DATA_ATT_MEDIATYPE, DATA_ATT_FILENAME,
                 PASSKEY_RP_ID]"

definition TimeFields :: "FieldType list" where
  "TimeFields = [ATIME, CTIME, XTIME, PMTIME, RMTIME, TOTPSTARTTIME, DATA_ATT_MTIME]"

definition BinaryFields :: "FieldType list" where
  "BinaryFields = [TOTPCONFIG, TOTPTIMESTEP, TOTPLENGTH, DATA_ATT_CONTENT,
                   PASSKEY_CRED_ID, PASSKEY_USER_HANDLE, PASSKEY_ALGO_ID,
                   PASSKEY_PRIVATE_KEY, PASSKEY_SIGN_COUNT]"

definition WriteIfSet ::
  "bool \<Rightarrow> Env \<Rightarrow> CItemData \<Rightarrow> FieldType \<Rightarrow> PWSfile \<Rightarrow> bool \<Rightarrow> error + (nat \<times> PWSfile)" where
  "WriteIfSet dbg env r ft out isUTF8 =
     (case m_fields r ft of
        None \<Rightarrow> Inr (0, out)
      | Some field \<Rightarrow>
          ASSERT dbg (field \<noteq> [])
            (if isUTF8 then
               (let dst = wcstombs env field;
                    dstlen = length dst
                in ASSERT dbg (dstlen > 0)
                     (let dstlen' = (if dstlen \<noteq> 0 \<and> dst ! (dstlen - 1) = CHR 0x00
                                     then dstlen - 1 else dstlen)
                      in Inr (WriteField out ft dst dstlen')))
             else Inr (WriteField out ft field (length field))))"

fun write_text_fields ::
  "bool \<Rightarrow> Env \<Rightarrow> CItemData \<Rightarrow> FieldType list \<Rightarrow> PWSfile \<Rightarrow> error + PWSfile" where
  \<comment> \<open>the loop over \<open>TextFields\<close>, the array without its END sentinel\<close>
  "write_text_fields dbg env r [] out = Inr out"
| "write_text_fields dbg env r (ft # fts) out =
     bind_err (WriteIfSet dbg env r ft out True)
       (\<lambda>(n, out'). write_text_fields dbg env r fts out')"

definition write_time_field ::
  "bool \<Rightarrow> Env \<Rightarrow> CItemData \<Rightarrow> FieldType \<Rightarrow> PWSfile \<Rightarrow> error + PWSfile" where
  \<comment> \<open>the body of the loop over \<open>TimeFields\<close>\<close>
  "write_time_field dbg env r ft out =
     bind_err (CItem_GetTime dbg r ft)
       (\<lambda>t. if t \<noteq> 0 then
               (if timeFieldLen out = 4 then
                  Inr (snd (WriteField out ft (putInt32 (ucast t)) (timeFieldLen out)))
                else if timeFieldLen out = TIME_LEN env then
                  Inr (snd (WriteField out ft (PWStime env t) (length (PWStime env t))))
                else ASSERT dbg False (Inr out))
             else Inr out)"

fun write_time_fields ::
  "bool \<Rightarrow> Env \<Rightarrow> CItemData \<Rightarrow> FieldType list \<Rightarrow> PWSfile \<Rightarrow> error + PWSfile" where
  "write_time_fields dbg env r [] out = Inr out"
| "write_time_fields dbg env r (ft # fts) out =
     bind_err (write_time_field dbg env r ft out) (write_time_fields dbg env r fts)"

definition write_binary_field :: "bool \<Rightarrow> CItemData \<Rightarrow> FieldType \<Rightarrow> PWSfile \<Rightarrow> error + PWSfile" where
  \<comment> \<open>the body of the loop over \<open>BinaryFields\<close>\<close>
  "write_binary_field dbg r ft out =
     (case m_fields r ft of
        None \<Rightarrow> Inr out
      | Some field \<Rightarrow>
          ASSERT dbg (field \<noteq> []) (Inr (snd (WriteField out ft field (length field)))))"

fun write_binary_fields ::
  "bool \<Rightarrow> CItemData \<Rightarrow> FieldType list \<Rightarrow> PWSfile \<Rightarrow> error + PWSfile" where
  "write_binary_fields dbg r [] out = Inr out"
| "write_binary_fields dbg r (ft # fts) out =
     bind_err (write_binary_field dbg r ft out) (write_binary_fields dbg r fts)"

fun write_unknowns :: "(FieldType \<times> string) list \<Rightarrow> PWSfile \<Rightarrow> PWSfile" where
  \<comment> \<open>the loop of \<open>WriteUnknowns\<close> over \<open>m_URFL\<close>\<close>
  "write_unknowns [] out = out"
| "write_unknowns ((ty, pdata) # us) out =
     write_unknowns us (snd (WriteField out ty pdata (length pdata)))"

definition WriteUnknowns :: "CItemData \<Rightarrow> PWSfile \<Rightarrow> PWSfile_status \<times> PWSfile" where
  "WriteUnknowns r out = (SUCCESS, write_unknowns (m_URFL r) out)"

definition WriteCommon ::
  "bool \<Rightarrow> Env \<Rightarrow> CItemData \<Rightarrow> PWSfile \<Rightarrow> error + (PWSfile_status \<times> PWSfile)" where
  "WriteCommon dbg env r out =
     bind_err (write_text_fields dbg env r TextFields out) (\<lambda>out1.
     bind_err (write_time_fields dbg env r TimeFields out1) (\<lambda>out2.
     bind_err (GetXTimeInt dbg r) (\<lambda>i32.
     let out3 = (if 0 < sint i32 \<and> sint i32 \<le> 3650
                 then snd (WriteField out2 XTIME_INT (putInt32 i32) 4) else out2) in
     bind_err (GetKBShortcut dbg r) (\<lambda>kbs.
     let out4 = (if kbs \<noteq> 0 then snd (WriteField out3 KBSHORTCUT (putInt32 kbs) 4) else out3) in
     bind_err (GetDCA dbg r False) (\<lambda>dca.
     let out5 = (if sint (minDCA env) \<le> sint dca \<and> sint dca \<le> sint (maxDCA env)
                 then snd (WriteField out4 DCA (putInt16 dca) 2) else out4) in
     bind_err (GetShiftDCA dbg r) (\<lambda>sdca.
     let out6 = (if sint (minDCA env) \<le> sint sdca \<and> sint sdca \<le> sint (maxDCA env)
                 then snd (WriteField out5 SHIFTDCA (putInt16 sdca) 2) else out5) in
     bind_err (WriteIfSet dbg env r PROTECTED out6 False) (\<lambda>(n, out7).
     bind_err (write_binary_fields dbg r BinaryFields out7) (\<lambda>out8.
     let out9 = snd (WriteUnknowns r out8);
         (n, out10) = WriteField out9 END [] 0
     in if n > 0 then Inr (SUCCESS, out10) else Inr (FAILURE, out10)))))))))"

definition id_field_of_kind :: "bool \<Rightarrow> CItemData \<Rightarrow> error + FieldType" where
  \<comment> \<open>the choice of \<open>ft\<close> at the head of both \<open>Write\<close> functions\<close>
  "id_field_of_kind dbg r =
     (if \<not> IsDependent r then Inr UUID
      else if IsAlias r then Inr ALIASUUID
      else if IsShortcut r then Inr SHORTCUTUUID
      else ASSERT dbg False (Inr END))"

definition Write_V3 ::
  "bool \<Rightarrow> Env \<Rightarrow> CItemData \<Rightarrow> PWSfile \<Rightarrow> error + (PWSfile_status \<times> PWSfile \<times> CItemData)" where
  \<comment> \<open>\<open>CItemData::Write(PWSfile *out)\<close>: the status, the file and the record after the call\<close>
  "Write_V3 dbg env r out =
     ASSERT dbg (HasUUID r)
       (bind_err (id_field_of_kind dbg r) (\<lambda>ft.
        let item_uuid = GetUUID r ft;
            out1 = snd (WriteField out UUID item_uuid 16);
            saved_password = GetPassword r
        in bind_err (SetSpecialPasswords dbg r) (\<lambda>self1.
           bind_err (WriteCommon dbg env self1 out1) (\<lambda>(status, out2).
             Inr (status, out2, SetPassword self1 saved_password)))))"

definition Write_V4 ::
  "bool \<Rightarrow> Env \<Rightarrow> CItemData \<Rightarrow> PWSfile \<Rightarrow> error + (PWSfile_status \<times> PWSfile \<times> CItemData)" where
  \<comment> \<open>\<open>CItemData::Write(PWSfileV4 *out)\<close>\<close>
  "Write_V4 dbg env r out =
     ASSERT dbg (HasUUID r)
       (bind_err (id_field_of_kind dbg r) (\<lambda>ft.
        let item_uuid = GetUUID r ft;
            out1 = snd (WriteField out ft item_uuid 16)
        in bind_err
             (if IsDependent r then
                ASSERT dbg (IsFieldSet r BASEUUID)
                  (Inr (snd (WriteField out1 BASEUUID (GetUUID r BASEUUID) 16)))
              else Inr out1)
             (\<lambda>out2.
                let out3 = (if IsFieldSet r ATTREF
                            then snd (WriteField out2 ATTREF (GetUUID r ATTREF) 16)
                            else out2)
                in bind_err (WriteCommon dbg env r out3) (\<lambda>(status, out4).
                     Inr (status, out4, r)))))"

subsection \<open>Password history (class PWHistList) and the password update\<close>

text \<open>
  Modelled from the spec: class PWHistList (PWHistory.cpp) is not part of the sources
  at hand.  The history is an ordered log of (previous password, change time) with a
  flag that says whether saving is enabled and the maximum number of entries kept;
  turning the log into its text removes the excess, oldest entries first.  The text is
  the spec's compact line: the flag as one hex digit, the maximum and the count as two
  hex digits each, then per entry the change time as eight hex digits, the length of
  the password as four hex digits and the password.  A text that is not of this form
  gives the empty log with saving disabled.
\<close>

record PWHistEntry =
  changetttdate :: time_t
  changedate :: StringX
  password :: StringX

record PWHistList =
  saving :: bool
  maxEntries :: nat
  entries :: "PWHistEntry list"

fun hex_fixed :: "nat \<Rightarrow> nat \<Rightarrow> string" where
  \<comment> \<open>\<open>hex_fixed w n\<close>: the last \<open>w\<close> hex digits of \<open>n\<close>\<close>
  "hex_fixed 0 n = []"
| "hex_fixed (Suc w) n = hex_fixed w (n div 16) @ [hexdigits ! (n mod 16)]"

definition hex_value :: "string \<Rightarrow> nat option" where
  "hex_value s =
     (if list_all is_hex_digit s then Some (foldl (\<lambda>acc c. 16 * acc + hexval c) 0 s) else None)"

definition trim_excess :: "PWHistList \<Rightarrow> PWHistEntry list" where
  "trim_excess h = drop (length (entries h) - maxEntries h) (entries h)"

definition PWHistList_to_StringX :: "PWHistList \<Rightarrow> StringX" where
  "PWHistList_to_StringX h =
     (let es = trim_excess h in
      (if saving h then ''1'' else ''0'') @ hex_fixed 2 (maxEntries h) @ hex_fixed 2 (length es) @
      concat (map (\<lambda>e. hex_fixed 8 (unat (changetttdate e)) @
                        hex_fixed 4 (length (password e)) @ password e) es))"

fun parse_entries :: "Env \<Rightarrow> nat \<Rightarrow> string \<Rightarrow> PWHistEntry list option" where
  "parse_entries env 0 s = (if s = [] then Some [] else None)"
| "parse_entries env (Suc n) s =
     (case (hex_value (take 8 s), hex_value (take 4 (drop 8 s))) of
        (Some t, Some l) \<Rightarrow>
          if length s < 12 + l then None
          else map_option
                 (\<lambda>es. \<lparr>changetttdate = word_of_nat t,
                         changedate = ConvertToDateTimeString env (word_of_nat t),
                         password = take l (drop 12 s)\<rparr> # es)
                 (parse_entries env n (drop (12 + l) s))
      | _ \<Rightarrow> None)"

definition PWHistList_of_StringX :: "Env \<Rightarrow> StringX \<Rightarrow> PWHistList" where
  "PWHistList_of_StringX env s =
     (let none = \<lparr>saving = False, maxEntries = 0, entries = []\<rparr> in
      if length s < 5 then none
      else case (hex_value (take 1 s), hex_value (take 2 (drop 1 s)),
                 hex_value (take 2 (drop 3 s))) of
             (Some f, Some m, Some n) \<Rightarrow>
               (case parse_entries env n (drop 5 s) of
                  None \<Rightarrow> none
                | Some es \<Rightarrow> \<lparr>saving = (f \<noteq> 0), maxEntries = m, entries = es\<rparr>)
           | _ \<Rightarrow> none)"

definition addEntry :: "PWHistList \<Rightarrow> PWHistEntry \<Rightarrow> PWHistList" where
  "addEntry h e = h\<lparr>entries := entries h @ [e]\<rparr>"

definition GetPWHistory :: "CItemData \<Rightarrow> StringX" where
  "GetPWHistory r =
     (let ret = GetField r PWHIST in if ret = ''0'' \<or> ret = ''00000'' then [] else ret)"

definition GetPMTime :: "bool \<Rightarrow> CItemData \<Rightarrow> error + time_t" where
  "GetPMTime dbg r = CItem_GetTime dbg r PMTIME"

definition GetCTime :: "bool \<Rightarrow> CItemData \<Rightarrow> error + time_t" where
  "GetCTime dbg r = CItem_GetTime dbg r CTIME"

definition SetPMTime :: "CItemData \<Rightarrow> time_t \<Rightarrow> CItemData" where
  "SetPMTime r t = CItem_SetTime r PMTIME t"

definition SetXTime :: "CItemData \<Rightarrow> time_t \<Rightarrow> CItemData" where
  "SetXTime r t = CItem_SetTime r XTIME t"

definition UpdatePasswordHistory :: "bool \<Rightarrow> Env \<Rightarrow> CItemData \<Rightarrow> error + CItemData" where
  "UpdatePasswordHistory dbg env r =
     (let pwh_str = GetPWHistory r;
          pwhistlist0 = PWHistList_of_StringX env pwh_str;
          pwhistlist = (if pwh_str = []
                        then pwhistlist0\<lparr>saving := SavePasswordHistory env,
                                         maxEntries := NumPWHistoryDefault env\<rparr>
                        else pwhistlist0)
      in if \<not> saving pwhistlist then Inr r
         else
           bind_err (GetPMTime dbg r) (\<lambda>t0.
           bind_err (if t0 = 0 then GetCTime dbg r else Inr t0) (\<lambda>t.
             let cd = ConvertToDateTimeString env t;
                 pwh_ent = \<lparr>changetttdate = t,
                            changedate = (if cd = [] then IDSC_UNKNOWN env else cd),
                            password = GetPassword r\<rparr>;
                 new_PWHistory = PWHistList_to_StringX (addEntry pwhistlist pwh_ent)
             in Inr (SetPWHistory r new_PWHistory))))"

definition UpdatePassword ::
  "bool \<Rightarrow> Env \<Rightarrow> time_t \<Rightarrow> CItemData \<Rightarrow> StringX \<Rightarrow> error + CItemData" where
  \<comment> \<open>\<open>now\<close> is the value that \<open>time(&t)\<close> gives\<close>
  "UpdatePassword dbg env now r new_password =
     bind_err (UpdatePasswordHistory dbg env r) (\<lambda>r1.
       let r2 = SetPassword r1 new_password;
           t = now;
           r3 = SetPMTime r2 t
       in bind_err (GetXTimeInt dbg r3) (\<lambda>xint.
            if xint \<noteq> 0 then Inr (SetXTime r3 (t + scast (xint * 86400)))
            else Inr (SetXTime r3 0)))"

subsection \<open>A concrete environment\<close>

definition pull_time_le :: "string \<Rightarrow> time_t option" where
  "pull_time_le data =
     (if length data = 4 \<or> length data = 5 \<or> length data = 8
      then Some (word_of_nat (le_nat data)) else None)"

definition env0 :: Env where
  \<comment> \<open>texts limited to ASCII, which UTF-8 leaves as they are; a time in 40 bits,
      least significant byte first\<close>
  "env0 = \<lparr>wcstombs = (\<lambda>s. s), FromUTF8 = Some,
           PWStime = (\<lambda>t. nat_le 5 (unat t)), TIME_LEN = 5, pull_time = pull_time_le,
           minDCA = 0, maxDCA = 9,
           SavePasswordHistory = True, NumPWHistoryDefault = 3,
           ConvertToDateTimeString = (\<lambda>t. if t = 0 then [] else hex_fixed 8 (unat t)),
           IDSC_UNKNOWN = ''Unknown''\<rparr>"

subsection \<open>Records used as concrete inputs\<close>

definition id_slot_of_kind :: "EntryType \<Rightarrow> FieldType" where
  \<comment> \<open>The slot that holds the id of a record of each kind (spec, data model).\<close>
  "id_slot_of_kind et =
     (case et of ET_ALIAS \<Rightarrow> ALIASUUID | ET_SHORTCUT \<Rightarrow> SHORTCUTUUID | _ \<Rightarrow> UUID)"

definition uuid_a :: uuid_array_t where
  "uuid_a = replicate 16 (CHR 0x0a)"

definition uuid_b :: uuid_array_t where
  "uuid_b = replicate 16 (CHR 0x0b)"

definition empty_item :: CItemData where
  "empty_item = \<lparr>m_fields = Map.empty, m_URFL = [], m_entrytype = ET_NORMAL,
                  m_entrystatus = ES_CLEAN\<rparr>"

definition base_entry :: CItemData where
  \<comment> \<open>a normal entry B\<close>
  "base_entry = empty_item\<lparr>m_fields :=
     [UUID \<mapsto> uuid_b, TITLE \<mapsto> ''base'', USER \<mapsto> ''bob'', PASSWORD \<mapsto> ''secret'',
      NOTES \<mapsto> ''note of B'']\<rparr>"

definition alias_entry :: CItemData where
  \<comment> \<open>an alias A of B\<close>
  "alias_entry = empty_item\<lparr>m_fields :=
     [ALIASUUID \<mapsto> uuid_a, BASEUUID \<mapsto> uuid_b, TITLE \<mapsto> ''alias'', USER \<mapsto> ''al'',
      PASSWORD \<mapsto> ''own''],
     m_entrytype := ET_ALIAS\<rparr>"

definition shortcut_entry :: CItemData where
  \<comment> \<open>a shortcut S to B\<close>
  "shortcut_entry = empty_item\<lparr>m_fields :=
     [SHORTCUTUUID \<mapsto> uuid_a, BASEUUID \<mapsto> uuid_b, TITLE \<mapsto> ''shortcut'', USER \<mapsto> ''sam''],
     m_entrytype := ET_SHORTCUT\<rparr>"

definition always_match :: PWSMatch where
  "always_match = \<lparr>Match_bool = (\<lambda>b f. True), Match_int = (\<lambda>a b v f. True),
                    Match_time = (\<lambda>a b v f. True)\<rparr>"

text \<open>
  The shape of a placeholder password as the code accepts it: 36 characters, a matching
  bracket pair, and 32 hex digits of either case between the brackets (the code turns
  the payload to lower case before it looks for a character that is no hex digit).
  \<open>claimed_placeholder_shape\<close> is the shape with lowercase hex digits only.
\<close>

definition placeholder_shape :: "StringX \<Rightarrow> bool" where
  "placeholder_shape p =
     (length p = 36 \<and>
      ((take 2 p = ''[['' \<and> drop 34 p = '']]'') \<or> (take 2 p = ''[~'' \<and> drop 34 p = ''~]'')) \<and>
      list_all is_hex_digit (take 32 (drop 2 p)))"

definition claimed_placeholder_shape :: "StringX \<Rightarrow> bool" where
  "claimed_placeholder_shape p =
     (length p = 36 \<and>
      ((take 2 p = ''[['' \<and> drop 34 p = '']]'') \<or> (take 2 p = ''[~'' \<and> drop 34 p = ''~]'')) \<and>
      list_all (\<lambda>c. c \<in> set ''0123456789abcdef'') (take 32 (drop 2 p)))"

definition upper_hex_entry :: CItemData where
  "upper_hex_entry = empty_item\<lparr>m_fields :=
     [UUID \<mapsto> uuid_a, PASSWORD \<mapsto> ''[[0123456789ABCDEF0123456789ABCDEF]]'']\<rparr>"

definition file_v3 :: PWSfile where
  "file_v3 = \<lparr>timeFieldLen = 4, chunks = []\<rparr>"

definition file_v4 :: PWSfile where
  "file_v4 = \<lparr>timeFieldLen = 5, chunks = []\<rparr>"

definition long_stream :: PWSfile where
  "long_stream = \<lparr>timeFieldLen = 4,
      chunks = (UUID, uuid_a) # replicate 255 (TITLE, ''t'') @ [(END, [])]\<rparr>"

subsection \<open>Unknown fields and the chunks a record is written as\<close>

text \<open>
  The tags that \<open>SetField\<close> has a case for are the recognized item-data fields.  A
  tag is unknown when it is none of them, not END and not the tag of an attachment
  record.  The definitions after these name the chunks that the Write functions
  append for a record, class of fields by class of fields, and \<open>put\<close> appends chunks
  to a file.
\<close>

definition recognized_item_fields :: "FieldType list" where
  "recognized_item_fields =
     [NAME, UUID, BASEUUID, ALIASUUID, SHORTCUTUUID, ATTREF] @ TextFields @ BinaryFields @
     TimeFields @ [XTIME_INT, DCA, SHIFTDCA, PROTECTED, KBSHORTCUT]"

definition is_unknown_tag :: "FieldType \<Rightarrow> bool" where
  "is_unknown_tag ty =
     (ty \<notin> set recognized_item_fields \<and> ty \<noteq> END \<and> \<not> IsItemAttField ty)"

definition unknown_chunks :: "(FieldType \<times> string) list \<Rightarrow> (FieldType \<times> string) list" where
  "unknown_chunks cs = filter (\<lambda>c. is_unknown_tag (fst c)) cs"

definition body_rec :: "body_end \<Rightarrow> CItemData" where
  "body_rec b = (case b of Continue r n f \<Rightarrow> r | Stop x r n f \<Rightarrow> r)"

definition body_inp :: "body_end \<Rightarrow> PWSfile" where
  "body_inp b = (case b of Continue r n f \<Rightarrow> f | Stop x r n f \<Rightarrow> f)"

definition text_payload :: "Env \<Rightarrow> StringX \<Rightarrow> string" where
  "text_payload env f =
     (let dst = wcstombs env f; dstlen = length dst
      in take (if dstlen \<noteq> 0 \<and> dst ! (dstlen - 1) = CHR 0x00 then dstlen - 1 else dstlen) dst)"

definition text_chunk :: "Env \<Rightarrow> CItemData \<Rightarrow> FieldType \<Rightarrow> (FieldType \<times> string) list" where
  "text_chunk env r ft =
     (case m_fields r ft of None \<Rightarrow> [] | Some f \<Rightarrow> [(ft, text_payload env f)])"

definition raw_chunk :: "CItemData \<Rightarrow> FieldType \<Rightarrow> (FieldType \<times> string) list" where
  "raw_chunk r ft = (case m_fields r ft of None \<Rightarrow> [] | Some f \<Rightarrow> [(ft, f)])"

definition fixed_value :: "(string \<Rightarrow> 'a) \<Rightarrow> 'a \<Rightarrow> string option \<Rightarrow> 'a" where
  "fixed_value get dflt fld =
     (case fld of None \<Rightarrow> dflt | Some v \<Rightarrow> if v = [] then dflt else get v)"

definition time_payload :: "Env \<Rightarrow> nat \<Rightarrow> time_t \<Rightarrow> string" where
  "time_payload env tfl t = (if tfl = 4 then putInt32 (ucast t) else PWStime env t)"

definition time_chunk :: "Env \<Rightarrow> nat \<Rightarrow> CItemData \<Rightarrow> FieldType \<Rightarrow> (FieldType \<times> string) list" where
  "time_chunk env tfl r ft =
     (let t = fixed_value getInt64 0 (m_fields r ft)
      in if t \<noteq> 0 \<and> (tfl = 4 \<or> tfl = TIME_LEN env) then [(ft, time_payload env tfl t)] else [])"

definition int_chunks :: "Env \<Rightarrow> CItemData \<Rightarrow> (FieldType \<times> string) list" where
  "int_chunks env r =
     (let i32 = fixed_value getInt32 0 (m_fields r XTIME_INT);
          kbs = fixed_value getInt32 0 (m_fields r KBSHORTCUT);
          dca = fixed_value getInt16 (- 1) (m_fields r DCA);
          sdca = fixed_value getInt16 (- 1) (m_fields r SHIFTDCA)
      in (if 0 < sint i32 \<and> sint i32 \<le> 3650 then [(XTIME_INT, putInt32 i32)] else []) @
         (if kbs \<noteq> 0 then [(KBSHORTCUT, putInt32 kbs)] else []) @
         (if sint (minDCA env) \<le> sint dca \<and> sint dca \<le> sint (maxDCA env)
          then [(DCA, putInt16 dca)] else []) @
         (if sint (minDCA env) \<le> sint sdca \<and> sint sdca \<le> sint (maxDCA env)
          then [(SHIFTDCA, putInt16 sdca)] else []))"

definition common_chunks :: "Env \<Rightarrow> nat \<Rightarrow> CItemData \<Rightarrow> (FieldType \<times> string) list" where
  "common_chunks env tfl r =
     concat (map (text_chunk env r) TextFields) @
     concat (map (time_chunk env tfl r) TimeFields) @
     int_chunks env r @
     raw_chunk r PROTECTED @
     concat (map (raw_chunk r) BinaryFields)"

definition put :: "PWSfile \<Rightarrow> (FieldType \<times> string) list \<Rightarrow> PWSfile" where
  "put out cs = out\<lparr>chunks := chunks out @ cs\<rparr>"

definition id_chunks_v4 :: "CItemData \<Rightarrow> (FieldType \<times> string) list" where
  "id_chunks_v4 r =
     [(id_slot_of_kind (m_entrytype r), take 16 (GetUUID r (id_slot_of_kind (m_entrytype r))))] @
     (if IsDependent r then [(BASEUUID, take 16 (GetUUID r BASEUUID))] else []) @
     (if IsFieldSet r ATTREF then [(ATTREF, take 16 (GetUUID r ATTREF))] else [])"

definition unknown_stream :: PWSfile where
  "unknown_stream = \<lparr>timeFieldLen = 4,
      chunks = [(UUID, uuid_a), (UNNAMED_FIELD 0xdf, ''xyz''), (TITLE, ''t''),
                (UNNAMED_ITEM_FIELD 0x30, ''''), (END, [])]\<rparr>"

definition unknown_item :: CItemData where
  "unknown_item = \<lparr>m_fields = [UUID \<mapsto> uuid_a, TITLE \<mapsto> ''t''],
                    m_URFL = [(UNNAMED_FIELD 0xdf, ''xyz''), (UNNAMED_ITEM_FIELD 0x30, '''')],
                    m_entrytype = ET_NORMAL, m_entrystatus = ES_CLEAN\<rparr>"

definition modified_item :: CItemData where
  "modified_item = SetPassword unknown_item ''pw''"

definition capped_unknown_stream :: PWSfile where
  \<comment> \<open>an id, 254 title chunks, an unknown field and END: 256 chunks before the terminator\<close>
  "capped_unknown_stream = \<lparr>timeFieldLen = 4,
      chunks = (UUID, uuid_a) # replicate 254 (TITLE, ''t'') @
               [(UNNAMED_FIELD 0xdf, ''xyz''), (END, [])]\<rparr>"

definition capped_item :: CItemData where
  \<comment> \<open>what \<open>Read\<close> makes of \<open>capped_unknown_stream\<close>\<close>
  "capped_item = empty_item\<lparr>m_fields := [UUID \<mapsto> uuid_a, TITLE \<mapsto> ''t'']\<rparr>"

subsection \<open>Records for the password update\<close>

definition bank_entry :: CItemData where
  "bank_entry = empty_item\<lparr>m_fields := [UUID \<mapsto> uuid_a, TITLE \<mapsto> ''Bank'', PASSWORD \<mapsto> ''p1'']\<rparr>"

definition full_history_entry :: CItemData where
  \<comment> \<open>history enabled, at most one entry kept, one entry (p0, 5) present; p1 was set at time 7\<close>
  "full_history_entry = empty_item\<lparr>m_fields :=
     [UUID \<mapsto> uuid_a, TITLE \<mapsto> ''Bank'', PASSWORD \<mapsto> ''p1'',
      PWHIST \<mapsto> ''10101000000050002p0'', PMTIME \<mapsto> putInt64 7]\<rparr>"

definition history_before :: "Env \<Rightarrow> CItemData \<Rightarrow> PWHistList" where
  \<comment> \<open>the log that \<open>UpdatePasswordHistory\<close> starts from: the one of the record, with the
      two preferences in place of flag and maximum when the record has no history\<close>
  "history_before env r =
     (if GetPWHistory r = []
      then (PWHistList_of_StringX env [])\<lparr>saving := SavePasswordHistory env,
                                          maxEntries := NumPWHistoryDefault env\<rparr>
      else PWHistList_of_StringX env (GetPWHistory r))"

definition old_password_entry :: "Env \<Rightarrow> CItemData \<Rightarrow> time_t \<Rightarrow> time_t \<Rightarrow> PWHistEntry" where
  \<comment> \<open>the entry for the password being replaced: its time is the time that password was
      set (\<open>pm\<close>, the password-modified time), or else the creation time \<open>ct\<close>\<close>
  "old_password_entry env r pm ct =
     (let t = (if pm = 0 then ct else pm); cd = ConvertToDateTimeString env t
      in \<lparr>changetttdate = t, changedate = (if cd = [] then IDSC_UNKNOWN env else cd),
          password = GetPassword r\<rparr>)"

definition bank_after :: CItemData where
  \<comment> \<open>the record \<open>bank_entry\<close> after its password was updated to p2 at time 1000\<close>
  "bank_after = empty_item\<lparr>m_fields :=
     [UUID \<mapsto> uuid_a, TITLE \<mapsto> ''Bank'', PASSWORD \<mapsto> ''p2'',
      PWHIST \<mapsto> ''10301000000000002p1'', PMTIME \<mapsto> putInt64 1000, XTIME \<mapsto> putInt64 0]\<rparr>"

subsection \<open>Writing a record and reading it back\<close>



definition field_survives :: "Env \<Rightarrow> nat \<Rightarrow> FieldType \<Rightarrow> string \<Rightarrow> bool" where
  \<comment> \<open>the stored value \<open>v\<close> of the field \<open>ft\<close> passes the filter that \<open>WriteCommon\<close> has for
      the field, in a file whose times are \<open>tfl\<close> bytes wide, and the setter that \<open>Read\<close>
      calls stores it again from the chunk written\<close>
  "field_survives env tfl ft v =
     (if ft \<in> set [UUID, BASEUUID, ALIASUUID, SHORTCUTUUID, ATTREF] then length v = 16
      else if ft \<in> set TextFields then
        v \<noteq> [] \<and> wcstombs env v \<noteq> [] \<and> FromUTF8 env (text_payload env v) = Some v
      else if ft \<in> set TimeFields then
        length v = 8 \<and> getInt64 v \<noteq> 0 \<and> (tfl = 4 \<or> tfl = TIME_LEN env) \<and>
        pull_time env (time_payload env tfl (getInt64 v)) = Some (getInt64 v)
      else if ft = XTIME_INT then
        length v = 4 \<and> 0 < sint (getInt32 v) \<and> sint (getInt32 v) \<le> 3650
      else if ft = KBSHORTCUT then length v = 4 \<and> getInt32 v \<noteq> 0
      else if ft = DCA \<or> ft = SHIFTDCA then
        length v = 2 \<and> sint (minDCA env) \<le> sint (getInt16 v) \<and>
        sint (getInt16 v) \<le> sint (maxDCA env)
      else if ft = PROTECTED then v = [CHR 0x01]
      else ft \<in> set BinaryFields \<and> v \<noteq> [])"

definition fields_survive :: "Env \<Rightarrow> nat \<Rightarrow> CItemData \<Rightarrow> bool" where
  "fields_survive env tfl r =
     (\<forall>ft \<in> dom (m_fields r). field_survives env tfl ft (the (m_fields r ft)))"

definition id_slots_ok :: "CItemData \<Rightarrow> bool" where
  \<comment> \<open>the id is in the slot of the record's kind and in no other, and a dependent, and
      only a dependent, has a base id\<close>
  "id_slots_ok r =
     (case m_entrytype r of
        ET_ALIAS \<Rightarrow> m_fields r ALIASUUID \<noteq> None \<and> m_fields r BASEUUID \<noteq> None \<and>
                    m_fields r UUID = None \<and> m_fields r SHORTCUTUUID = None
      | ET_SHORTCUT \<Rightarrow> m_fields r SHORTCUTUUID \<noteq> None \<and> m_fields r BASEUUID \<noteq> None \<and>
                       m_fields r UUID = None \<and> m_fields r ALIASUUID = None
      | _ \<Rightarrow> m_fields r UUID \<noteq> None \<and> m_fields r BASEUUID = None \<and>
             m_fields r ALIASUUID = None \<and> m_fields r SHORTCUTUUID = None)"


datatype generation = V3 | V4



definition special_password :: "CItemData \<Rightarrow> StringX" where
  \<comment> \<open>the placeholder that \<open>SetSpecialPasswords\<close> puts in place of the password of a
      dependent\<close>
  "special_password r =
     (if IsAlias r then ''[['' else ''[~'') @ CUUID_to_StringX (GetUUID r BASEUUID) @
     (if IsAlias r then '']]'' else ''~]'')"

definition as_written :: "generation \<Rightarrow> CItemData \<Rightarrow> CItemData" where
  \<comment> \<open>the record whose common fields are written: in the legacy generation a dependent
      is written with the placeholder as its password\<close>
  "as_written g r =
     (if g = V3 \<and> IsDependent r then SetPassword r (special_password r) else r)"

definition round_trip_conditions ::
  "generation \<Rightarrow> bool \<Rightarrow> Env \<Rightarrow> PWSfile \<Rightarrow> CItemData \<Rightarrow> bool" where
  "round_trip_conditions g dbg env out r =
     (chunks out = [] \<and> m_URFL r = [] \<and> id_slots_ok r \<and>
      fields_survive env (timeFieldLen out) (as_written g r) \<and>
      \<not> (sint (minDCA env) \<le> - 1 \<and> - 1 \<le> sint (maxDCA env)) \<and>
      (if g = V4 then \<not> placeholder_shape (GetPassword r)
       else m_fields r ATTREF = None \<and>
            (if IsDependent r
             then (dbg \<longrightarrow> GetUUID r BASEUUID \<noteq> NullUUID \<and>
                           GetUUID r BASEUUID \<noteq> GetUUID r END)
             else \<not> placeholder_shape (GetPassword r))))"




section \<open>Properties\<close>

subsection \<open>Effective values\<close>

text \<open>
  Claim C2.  \<open>GetEffectiveFieldValue(ft, base)\<close>: a Normal or base-kind record answers
  with its own value of every field.  An Alias answers with the base record's value
  exactly for password, password history, two-factor key, TOTP config, TOTP start time,
  TOTP time step and TOTP length, and with its own value for every other field.  A
  Shortcut answers with its own value exactly for group, title and user, and with the
  base record's value for every other field.  The base record is present (non-null)
  whenever the record is an alias or a shortcut; assertions compiled in or not.
\<close>

theorem GetEffectiveFieldValue_table:
  "(IsNormal r \<or> IsBase r \<longrightarrow> GetEffectiveFieldValue dbg r ft pbci = Inr (GetField r ft)) \<and>
   (IsAlias r \<longrightarrow> GetEffectiveFieldValue dbg r ft (Some b) =
      Inr (if ft \<in> {PASSWORD, PWHIST, TWOFACTORKEY, TOTPCONFIG, TOTPSTARTTIME,
                     TOTPTIMESTEP, TOTPLENGTH}
           then GetField b ft else GetField r ft)) \<and>
   (IsShortcut r \<longrightarrow> GetEffectiveFieldValue dbg r ft (Some b) =
      Inr (if ft \<in> {GROUP, TITLE, USER} then GetField r ft else GetField b ft))"
  by (auto simp: GetEffectiveFieldValue_def IsNormal_def IsBase_def IsAlias_def
        IsShortcut_def IsAliasBase_def IsShortcutBase_def IsDependent_def ASSERT_def
        deref_def base_fields_def)

theorem GetEffectiveFieldValue_table_witness:
  "IsAlias alias_entry \<and> IsShortcut shortcut_entry \<and> IsNormal base_entry \<and>
   GetEffectiveFieldValue True alias_entry PASSWORD (Some base_entry) = Inr ''secret'' \<and>
   GetEffectiveFieldValue True alias_entry TITLE (Some base_entry) = Inr ''alias'' \<and>
   GetEffectiveFieldValue True shortcut_entry NOTES (Some base_entry) = Inr ''note of B'' \<and>
   GetEffectiveFieldValue True shortcut_entry USER (Some base_entry) = Inr ''sam'' \<and>
   GetEffectiveFieldValue True base_entry PASSWORD None = Inr ''secret''"
  using GetEffectiveFieldValue_table [of alias_entry True PASSWORD None base_entry]
        GetEffectiveFieldValue_table [of alias_entry True TITLE None base_entry]
        GetEffectiveFieldValue_table [of shortcut_entry True NOTES None base_entry]
        GetEffectiveFieldValue_table [of shortcut_entry True USER None base_entry]
        GetEffectiveFieldValue_table [of base_entry True PASSWORD None base_entry]
  by (simp add: IsAlias_def IsShortcut_def IsNormal_def alias_entry_def shortcut_entry_def
        base_entry_def empty_item_def GetField_def)

text \<open>Without the base record a dependent entry has no effective value for a field it
  inherits: the assertion fails, or the null pointer is followed.\<close>

lemma GetEffectiveFieldValue_null_base:
  "IsAlias r \<Longrightarrow>
   GetEffectiveFieldValue dbg r PASSWORD None = Inl (if dbg then AssertFailed else NullPointer)"
  by (simp add: GetEffectiveFieldValue_def IsNormal_def IsBase_def IsAlias_def
        IsShortcut_def IsAliasBase_def IsShortcutBase_def IsDependent_def ASSERT_def
        deref_def base_fields_def)

subsection \<open>Reading an id\<close>

text \<open>
  Claim C9.  For every record and every id-type slot (UUID, BASE-UUID, ALIAS-UUID,
  SHORTCUT-UUID, attachment reference, or, for the tag END, the slot selected by the
  current entry kind), \<open>GetUUID\<close> on a slot that is not populated returns the all-zero
  16-byte id.  \<open>GetUUID\<close> is a function of the record that returns the array only, so the
  record is not modified.
\<close>

theorem GetUUID_unpopulated_is_null:
  assumes "slot = (if ft = END then id_slot_of_kind (m_entrytype r) else ft)"
    and "\<not> IsFieldSet r slot"
  shows "GetUUID r ft = replicate 16 (CHR 0x00)"
  using assms
  by (auto simp: GetUUID_def IsFieldSet_def id_slot_of_kind_def NullUUID_def
        split: EntryType.splits)

theorem GetUUID_unpopulated_is_null_witness:
  "\<not> IsFieldSet alias_entry UUID \<and> \<not> IsFieldSet base_entry ALIASUUID \<and>
   GetUUID alias_entry UUID = replicate 16 (CHR 0x00) \<and>
   GetUUID base_entry (id_slot_of_kind ET_ALIAS) = replicate 16 (CHR 0x00) \<and>
   GetUUID empty_item END = replicate 16 (CHR 0x00)"
  using GetUUID_unpopulated_is_null [of UUID UUID alias_entry]
        GetUUID_unpopulated_is_null [of ALIASUUID ALIASUUID base_entry]
        GetUUID_unpopulated_is_null [of UUID END empty_item]
  by (simp add: IsFieldSet_def alias_entry_def base_entry_def empty_item_def
        id_slot_of_kind_def)

subsection \<open>Matching on numbers and times\<close>

text \<open>
  Claim C10.  For every record, the numeric \<open>Matches\<close> predicate (over expiry interval,
  serialized entry size, password length or keyboard shortcut) and \<open>MatchesTime\<close>, called
  with a comparison function other than present / not-present, return false whenever
  the selected value is zero, whatever the bounds and whatever the comparison functions
  of PWSMatch would answer.
\<close>

theorem Matches_zero_value_is_false:
  assumes "iFunction \<noteq> MR_PRESENT" and "iFunction \<noteq> MR_NOTPRESENT"
  shows
    "(GetXTimeInt dbg r = Inr 0 \<longrightarrow>
        Matches_int dbg pm r num1 num2 XTIME_INT iFunction = Inr False) \<and>
     ((word_of_nat (GetSize r) :: int32) = 0 \<longrightarrow>
        Matches_int dbg pm r num1 num2 ENTRYSIZE iFunction = Inr False) \<and>
     ((word_of_nat (GetPasswordLength r) :: int32) = 0 \<longrightarrow>
        Matches_int dbg pm r num1 num2 PASSWORDLEN iFunction = Inr False) \<and>
     (GetKBShortcut dbg r = Inr 0 \<longrightarrow>
        Matches_int dbg pm r num1 num2 KBSHORTCUT iFunction = Inr False) \<and>
     (iObject \<in> {CTIME, PMTIME, ATIME, XTIME, RMTIME} \<and>
      CItem_GetTime dbg r iObject = Inr 0 \<longrightarrow>
        MatchesTime dbg pm day_start r time1 time2 iObject iFunction = Inr False)"
  using assms
  by (auto simp: Matches_int_def MatchesTime_def bind_err_def Let_def)

theorem Matches_zero_value_is_false_witness:
  "MR_IS \<noteq> MR_PRESENT \<and> MR_IS \<noteq> MR_NOTPRESENT \<and>
   GetXTimeInt True empty_item = Inr 0 \<and>
   Matches_int True always_match empty_item 0 9 XTIME_INT MR_IS = Inr False \<and>
   (word_of_nat (GetSize empty_item) :: int32) = 0 \<and>
   Matches_int True always_match empty_item 0 9 ENTRYSIZE MR_IS = Inr False \<and>
   (word_of_nat (GetPasswordLength empty_item) :: int32) = 0 \<and>
   Matches_int True always_match empty_item 0 9 PASSWORDLEN MR_IS = Inr False \<and>
   GetKBShortcut True empty_item = Inr 0 \<and>
   Matches_int True always_match empty_item 0 9 KBSHORTCUT MR_IS = Inr False \<and>
   CItem_GetTime True empty_item XTIME = Inr 0 \<and>
   MatchesTime True always_match Some empty_item 0 9 XTIME MR_IS = Inr False"
  using Matches_zero_value_is_false [of MR_IS True empty_item always_match 0 9 XTIME Some 0 9]
  by (simp add: GetXTimeInt_def GetKBShortcut_def CItem_GetTime_def read_fixed_def
        empty_item_def GetSize_def GetPasswordLength_def GetField_def)

subsection \<open>Changing the entry kind\<close>

text \<open>
  Claim C6.  \<open>SetEntryType\<close> is to relocate the id between the UUID slot and the
  ALIAS-UUID / SHORTCUT-UUID slot on every change of kind that crosses the boundary
  between {Normal, AliasBase, ShortcutBase} and {Alias, Shortcut}.  The code does not
  do so when an Alias (or Shortcut) becomes AliasBase or ShortcutBase: the second test
  of \<open>SetEntryType\<close> reads \<open>m_entrytype\<close> where the new kind \<open>et\<close> is meant, so only
  \<open>et = ET_NORMAL\<close> moves the id back.  On the alias below, which has its id, the call
  \<open>SetEntryType(ET_ALIASBASE)\<close> leaves the id in ALIAS-UUID, UUID empty, and \<open>HasUUID\<close>
  false.
\<close>

theorem SetEntryType_alias_to_aliasbase_keeps_slot:
  "HasUUID alias_entry \<and>
   m_entrytype (SetEntryType alias_entry ET_ALIASBASE) = ET_ALIASBASE \<and>
   m_fields (SetEntryType alias_entry ET_ALIASBASE) ALIASUUID = Some uuid_a \<and>
   m_fields (SetEntryType alias_entry ET_ALIASBASE) UUID = None \<and>
   \<not> HasUUID (SetEntryType alias_entry ET_ALIASBASE)"
  by (simp add: SetEntryType_def alias_entry_def empty_item_def HasUUID_def IsFieldSet_def)

text \<open>The transitions that the code does handle: towards Alias or Shortcut, back to
  Normal, and every change that stays on one side of the boundary.\<close>

lemma SetEntryType_to_dependent:
  assumes "m_entrytype r \<in> {ET_NORMAL, ET_ALIASBASE, ET_SHORTCUTBASE}"
    and "et \<in> {ET_ALIAS, ET_SHORTCUT}" and "m_fields r UUID = Some u" and "length u = 16"
  shows "m_fields (SetEntryType r et) UUID = None \<and>
         m_fields (SetEntryType r et) (id_slot_of_kind et) = Some u \<and>
         HasUUID r \<and> HasUUID (SetEntryType r et)"
  using assms
  by (auto simp: SetEntryType_def Let_def SetUUID_def CItem_SetField_def erase_def
        GetUUID_def HasUUID_def IsFieldSet_def id_slot_of_kind_def)

lemma SetEntryType_to_normal:
  assumes "m_entrytype r \<in> {ET_ALIAS, ET_SHORTCUT}"
    and "m_fields r (id_slot_of_kind (m_entrytype r)) = Some u" and "length u = 16"
  shows "m_fields (SetEntryType r ET_NORMAL) (id_slot_of_kind (m_entrytype r)) = None \<and>
         m_fields (SetEntryType r ET_NORMAL) UUID = Some u \<and>
         HasUUID r \<and> HasUUID (SetEntryType r ET_NORMAL)"
  using assms
  by (auto simp: SetEntryType_def Let_def SetUUID_def CItem_SetField_def erase_def
        GetUUID_def HasUUID_def IsFieldSet_def id_slot_of_kind_def)

lemma SetEntryType_same_side:
  assumes "(m_entrytype r \<in> {ET_ALIAS, ET_SHORTCUT}) = (et \<in> {ET_ALIAS, ET_SHORTCUT})"
  shows "m_fields (SetEntryType r et) = m_fields r"
  using assms
  by (cases "m_entrytype r"; cases et; simp add: SetEntryType_def Let_def)

subsection \<open>The placeholder password\<close>

lemma char_eq_code: "(c = d) = ((of_char c :: nat) = of_char d)"
  by simp

lemma lower_hex_code:
  "(c \<in> set ''0123456789abcdef'') =
   ((48 \<le> (of_char c :: nat) \<and> (of_char c :: nat) \<le> 57) \<or> (97 \<le> (of_char c :: nat) \<and> (of_char c :: nat) \<le> 102))"
  apply (simp add: char_eq_code [of c])
  apply arith
  done

lemma is_hex_digit_code:
  "is_hex_digit c =
   ((48 \<le> (of_char c :: nat) \<and> (of_char c :: nat) \<le> 57) \<or> (97 \<le> (of_char c :: nat) \<and> (of_char c :: nat) \<le> 102)
     \<or> (65 \<le> (of_char c :: nat) \<and> (of_char c :: nat) \<le> 70))"
  unfolding is_hex_digit_def
  apply (simp add: char_eq_code [of c])
  apply arith
  done

lemma of_char_char_of_small: "n < 256 \<Longrightarrow> (of_char (char_of (n::nat)) :: nat) = n"
  by simp

lemma ToLower_char_hex: "(ToLower_char c \<in> set ''0123456789abcdef'') = is_hex_digit c"
proof -
  have b: "(of_char c :: nat) < 256" by simp
  show ?thesis
    unfolding lower_hex_code is_hex_digit_code ToLower_char_def Let_def
    using b by (auto simp: of_char_char_of_small)
qed

lemma find_first_not_of_None: "(find_first_not_of s cs = None) = list_all (\<lambda>c. c \<in> set cs) s"
  by (induction s) auto

lemma ToLower_all_hex:
  "(find_first_not_of (ToLower s) ''0123456789abcdef'' = None) = list_all is_hex_digit s"
  unfolding find_first_not_of_None ToLower_def
  by (induction s) (simp_all only: list.map list.pred_inject ToLower_char_hex)

lemma length_hex_pairs: "length (hex_pairs s) = length s div 2"
  by (induction s rule: hex_pairs.induct) simp_all

lemma parse_shape:
  "(length p = 36 \<and>
    ((substr p 0 2 = ''[['' \<and> substr_from p (length p - 2) = '']]'') \<or>
     (substr p 0 2 = ''[~'' \<and> substr_from p (length p - 2) = ''~]'')) \<and>
    find_first_not_of (ToLower (substr p 2 32)) ''0123456789abcdef'' = None)
   = placeholder_shape p"
  unfolding placeholder_shape_def ToLower_all_hex substr_def substr_from_def
  by auto

lemma GetUUID_SetUUID_BASEUUID: "GetUUID (SetUUID r b BASEUUID) END = GetUUID r END"
  by (simp add: GetUUID_def SetUUID_def CItem_SetField_def split: EntryType.splits)

lemma ParseSpecialPasswords_result:
  "ParseSpecialPasswords dbg r =
     Inr (if placeholder_shape (GetPassword r) then
            r\<lparr>m_fields := (m_fields r)
                (BASEUUID \<mapsto> CUUID_of_StringX (ToLower (take 32 (drop 2 (GetPassword r)))),
                 UUID := None,
                 (if take 2 (GetPassword r) = ''[['' then ALIASUUID else SHORTCUTUUID)
                    \<mapsto> take 16 (GetUUID r END))\<rparr>
          else r)"
proof (cases "placeholder_shape (GetPassword r)")
  case False
  then show ?thesis
    using parse_shape [of "GetPassword r"]
    by (auto simp: ParseSpecialPasswords_def Let_def)
next
  case True
  let ?p = "GetPassword r"
  have len: "length ?p = 36" using True by (simp add: placeholder_shape_def)
  have c: "(substr ?p 0 2 = ''[['' \<and> substr_from ?p (length ?p - 2) = '']]'' \<or>
            substr ?p 0 2 = ''[~'' \<and> substr_from ?p (length ?p - 2) = ''~]'') \<and>
           find_first_not_of (ToLower (substr ?p 2 32)) ''0123456789abcdef'' = None"
    using True parse_shape [of ?p] by blast
  have br: "substr ?p 0 2 = ''[['' \<or> substr ?p 0 2 = ''[~''" using c by blast
  have l16: "length (CUUID_of_StringX (ToLower (substr ?p 2 32))) = 16"
    using len by (simp add: CUUID_of_StringX_def length_hex_pairs ToLower_def substr_def)
  have s2: "substr ?p 0 2 = take 2 ?p" and s32: "substr ?p 2 32 = take 32 (drop 2 ?p)"
    by (simp_all add: substr_def)
  show ?thesis
    using True len c br l16
    unfolding ParseSpecialPasswords_def Let_def GetUUID_SetUUID_BASEUUID
    by (auto simp: s2 s32 bind_err_def SetUUID_def ClearField_def erase_def CItem_SetField_def)
qed

text \<open>
  Claim C3, as amended.  \<open>ParseSpecialPasswords\<close> installs a dependency link exactly
  when the password has length 36, is enclosed in a matching bracket pair (\<open>[[...]]\<close>
  for an alias, \<open>[~...~]\<close> for a shortcut) and its middle 32 characters are hex digits
  of either case.  It then sets BASE-UUID to the id read from the payload turned to
  lower case, moves the record's id (the one \<open>GetUUID\<close> selects by the entry kind)
  into the ALIAS-UUID or SHORTCUT-UUID slot according to the bracket kind, and clears
  the UUID slot.  For every other password the record is left as it is.
\<close>

theorem ParseSpecialPasswords_spec:
  "ParseSpecialPasswords dbg r =
     Inr (if placeholder_shape (GetPassword r) then
            r\<lparr>m_fields := (m_fields r)
                (BASEUUID \<mapsto> CUUID_of_StringX (ToLower (take 32 (drop 2 (GetPassword r)))),
                 UUID := None,
                 (if take 2 (GetPassword r) = ''[['' then ALIASUUID else SHORTCUTUUID)
                    \<mapsto> take 16 (GetUUID r END))\<rparr>
          else r)"
  by (rule ParseSpecialPasswords_result)

theorem ParseSpecialPasswords_spec_witness:
  "placeholder_shape (GetPassword upper_hex_entry) \<and>
   \<not> placeholder_shape (GetPassword alias_entry) \<and>
   ParseSpecialPasswords True alias_entry = Inr alias_entry \<and>
   map_sum id (\<lambda>r. (m_fields r BASEUUID, m_fields r UUID, m_fields r ALIASUUID, m_fields r SHORTCUTUUID))
     (ParseSpecialPasswords True upper_hex_entry) =
     Inr (Some (hex_pairs ''0123456789abcdef0123456789abcdef''), None, Some uuid_a, None)"
  using ParseSpecialPasswords_spec [of True alias_entry] ParseSpecialPasswords_spec [of True upper_hex_entry]
  by (simp add: placeholder_shape_def GetPassword_def GetField_def alias_entry_def upper_hex_entry_def
        empty_item_def is_hex_digit_def GetUUID_def uuid_a_def CUUID_of_StringX_def ToLower_def ToLower_char_def
        hexval_def Let_def)

text \<open>
  The claim as stated asks for lowercase hex digits.  A password of 32 uppercase hex
  digits between \<open>[[\<close> and \<open>]]\<close> is not of that shape, and the record is changed
  all the same.
\<close>

theorem ParseSpecialPasswords_upper_hex_counterexample:
  "\<not> claimed_placeholder_shape (GetPassword upper_hex_entry) \<and>
   ParseSpecialPasswords True upper_hex_entry \<noteq> Inr upper_hex_entry \<and>
   map_sum id (\<lambda>r. (m_fields r BASEUUID, m_fields r UUID, m_fields r ALIASUUID))
     (ParseSpecialPasswords True upper_hex_entry) =
     Inr (Some (hex_pairs ''0123456789abcdef0123456789abcdef''), None, Some uuid_a)"
proof -
  have a: "\<not> claimed_placeholder_shape (GetPassword upper_hex_entry)"
    by (simp add: claimed_placeholder_shape_def GetPassword_def GetField_def upper_hex_entry_def empty_item_def)
  have s: "placeholder_shape (GetPassword upper_hex_entry)"
    by (simp add: placeholder_shape_def GetPassword_def GetField_def upper_hex_entry_def empty_item_def is_hex_digit_def)
  have c: "map_sum id (\<lambda>r. (m_fields r BASEUUID, m_fields r UUID, m_fields r ALIASUUID))
     (ParseSpecialPasswords True upper_hex_entry) =
     Inr (Some (hex_pairs ''0123456789abcdef0123456789abcdef''), None, Some uuid_a)"
    unfolding ParseSpecialPasswords_result using s
    by (simp add: GetPassword_def GetField_def upper_hex_entry_def
        empty_item_def GetUUID_def uuid_a_def CUUID_of_StringX_def ToLower_def ToLower_char_def
        hexval_def Let_def)
  have "m_fields upper_hex_entry BASEUUID = None"
    by (simp add: upper_hex_entry_def empty_item_def)
  with c have b: "ParseSpecialPasswords True upper_hex_entry \<noteq> Inr upper_hex_entry"
    by auto
  from a b c show ?thesis by blast
qed

lemma hexdigit_props:
  "\<forall>k\<in>set [0, 1, 2, 3, 4, 5, 6, 7, 8, 9, 10, 11, 12, 13, 14, 15 :: nat].
      hexval (hexdigits ! k) = k \<and> ToLower_char (hexdigits ! k) = hexdigits ! k \<and>
      is_hex_digit (hexdigits ! k)"
  by (simp add: hexval_def hexdigits_def ToLower_char_def is_hex_digit_def Let_def)

lemma hexdigit_lt:
  assumes "k < 16"
  shows "hexval (hexdigits ! k) = k" "ToLower_char (hexdigits ! k) = hexdigits ! k"
        "is_hex_digit (hexdigits ! k)"
proof -
  have "k \<in> set [0, 1, 2, 3, 4, 5, 6, 7, 8, 9, 10, 11, 12, 13, 14, 15 :: nat]"
    using assms by simp arith
  with hexdigit_props
  have "hexval (hexdigits ! k) = k \<and> ToLower_char (hexdigits ! k) = hexdigits ! k \<and>
        is_hex_digit (hexdigits ! k)"
    by blast
  then show "hexval (hexdigits ! k) = k" "ToLower_char (hexdigits ! k) = hexdigits ! k"
        "is_hex_digit (hexdigits ! k)"
    by simp_all
qed

lemma hex_pairs_hex_of_byte:
  "hex_pairs (hex_of_byte c @ s) = c # hex_pairs s"
proof -
  have a: "(of_char c :: nat) div 16 < 16" and b: "(of_char c :: nat) mod 16 < 16"
    by (rule less_mult_imp_div_less) simp_all
  have "16 * ((of_char c :: nat) div 16) + of_char c mod 16 = of_char c" by simp
  then show ?thesis
    by (simp add: hex_of_byte_def hexdigit_lt [OF a] hexdigit_lt [OF b])
qed

lemma hex_pairs_concat: "hex_pairs (concat (map hex_of_byte u)) = u"
  by (induction u) (simp_all add: hex_pairs_hex_of_byte)

lemma ToLower_hex_of_byte: "ToLower (hex_of_byte c) = hex_of_byte c"
proof -
  have a: "(of_char c :: nat) div 16 < 16" and b: "(of_char c :: nat) mod 16 < 16"
    by (rule less_mult_imp_div_less) simp_all
  show ?thesis by (simp add: ToLower_def hex_of_byte_def hexdigit_lt [OF a] hexdigit_lt [OF b])
qed

lemma hex_hex_of_byte: "list_all is_hex_digit (hex_of_byte c)"
proof -
  have a: "(of_char c :: nat) div 16 < 16" and b: "(of_char c :: nat) mod 16 < 16"
    by (rule less_mult_imp_div_less) simp_all
  show ?thesis by (simp add: hex_of_byte_def hexdigit_lt [OF a] hexdigit_lt [OF b])
qed

lemma ToLower_concat: "ToLower (concat (map hex_of_byte u)) = concat (map hex_of_byte u)"
proof (induction u)
  case Nil
  show ?case by (simp add: ToLower_def)
next
  case (Cons c u)
  have "ToLower (hex_of_byte c @ concat (map hex_of_byte u)) =
        ToLower (hex_of_byte c) @ ToLower (concat (map hex_of_byte u))"
    by (simp add: ToLower_def)
  then show ?case using Cons by (simp add: ToLower_hex_of_byte)
qed

lemma hex_concat: "list_all is_hex_digit (concat (map hex_of_byte u))"
  by (induction u) (simp_all add: hex_hex_of_byte)

lemma length_hex_concat: "length (concat (map hex_of_byte u)) = 2 * length u"
  by (induction u) (simp_all add: hex_of_byte_def)

lemma CUUID_text_props:
  assumes "length u = 16"
  shows "length (CUUID_to_StringX u) = 32"
    and "ToLower (CUUID_to_StringX u) = CUUID_to_StringX u"
    and "list_all is_hex_digit (CUUID_to_StringX u)"
    and "CUUID_of_StringX (CUUID_to_StringX u) = u"
  using assms
  by (simp_all add: CUUID_to_StringX_def CUUID_of_StringX_def length_hex_concat ToLower_concat
        hex_concat hex_pairs_concat)

lemma placeholder_shape_token:
  assumes "length u = 16"
  shows "placeholder_shape (''[['' @ CUUID_to_StringX u @ '']]'')"
    and "placeholder_shape (''[~'' @ CUUID_to_StringX u @ ''~]'')"
  using CUUID_text_props [OF assms]
  by (simp_all add: placeholder_shape_def)

lemma SetSpecialPasswords_dependent:
  assumes dep: "IsDependent r"
    and base: "m_fields r BASEUUID = Some bu"
    and asserts: "dbg \<longrightarrow> bu \<noteq> NullUUID \<and> bu \<noteq> GetUUID r END"
  shows "SetSpecialPasswords dbg r =
         Inr (SetPassword r ((if IsAlias r then ''[['' else ''[~'') @ CUUID_to_StringX bu @
                             (if IsAlias r then '']]'' else ''~]'')))"
  using assms
  by (auto simp: SetSpecialPasswords_def ASSERT_def IsFieldSet_def GetUUID_def Let_def
        IsDependent_def IsAlias_def IsShortcut_def)

lemma SetSpecialPasswords_cases:
  "SetSpecialPasswords dbg r = Inr r1 \<Longrightarrow> r1 = r \<or> (\<exists>s. r1 = SetPassword r s)"
  by (auto simp: SetSpecialPasswords_def ASSERT_def Let_def split: if_splits)

lemma GetPassword_SetPassword: "GetPassword (SetPassword r s) = s"
  by (simp add: GetPassword_def SetPassword_def CItem_SetField_str_def CItem_SetField_def
        GetField_def erase_def)

lemma m_fields_SetPassword: "ft \<noteq> PASSWORD \<Longrightarrow> m_fields (SetPassword r s) ft = m_fields r ft"
  by (simp add: SetPassword_def CItem_SetField_str_def CItem_SetField_def erase_def)

lemma rest_SetPassword:
  "m_URFL (SetPassword r s) = m_URFL r" "m_entrytype (SetPassword r s) = m_entrytype r"
  "m_entrystatus (SetPassword r s) = m_entrystatus r"
  by (simp_all add: SetPassword_def CItem_SetField_str_def CItem_SetField_def erase_def)

lemma Write_V3_record:
  assumes "Write_V3 dbg env r out = Inr (status, out', r')"
  shows "GetPassword r' = GetPassword r \<and> (\<forall>ft. ft \<noteq> PASSWORD \<longrightarrow> m_fields r' ft = m_fields r ft) \<and>
         m_URFL r' = m_URFL r \<and> m_entrytype r' = m_entrytype r \<and> m_entrystatus r' = m_entrystatus r"
proof -
  from assms obtain self1 where s: "SetSpecialPasswords dbg r = Inr self1"
    and r': "r' = SetPassword self1 (GetPassword r)"
    by (auto simp: Write_V3_def ASSERT_def bind_err_def Let_def split: if_splits sum.splits prod.splits)
  from SetSpecialPasswords_cases [OF s] show ?thesis
    unfolding r'
    by (auto simp: GetPassword_SetPassword m_fields_SetPassword rest_SetPassword)
qed

text \<open>
  Claim C4.  For every dependent (alias or shortcut) record with a populated BASE-UUID,
  \<open>SetSpecialPasswords\<close> followed by \<open>ParseSpecialPasswords\<close> restores the BASE-UUID and
  the id in the slot of the record's kind, and the kind with it; and after a complete
  legacy-format \<open>Write\<close> the password in memory is the one from before the call.  Ids
  are 16 bytes long.  With assertions compiled in, \<open>SetSpecialPasswords\<close> asserts that
  the base id is neither null nor the record's own id.
\<close>

theorem placeholder_codec_inverse:
  assumes dep: "IsDependent r"
    and base: "m_fields r BASEUUID = Some bu" "length bu = 16"
    and own: "length (GetUUID r END) = 16"
    and asserts: "dbg \<longrightarrow> bu \<noteq> NullUUID \<and> bu \<noteq> GetUUID r END"
  shows "(\<exists>r1 r2. SetSpecialPasswords dbg r = Inr r1 \<and> ParseSpecialPasswords dbg r1 = Inr r2 \<and>
            m_fields r2 BASEUUID = Some bu \<and>
            m_fields r2 (id_slot_of_kind (m_entrytype r)) = Some (GetUUID r END) \<and>
            m_entrytype r2 = m_entrytype r) \<and>
         (Write_V3 dbg env r out = Inr (status, out', r') \<longrightarrow> GetPassword r' = GetPassword r)"
proof -
  let ?tok = "(if IsAlias r then ''[['' else ''[~'') @ CUUID_to_StringX bu @
              (if IsAlias r then '']]'' else ''~]'')"
  let ?r1 = "SetPassword r ?tok"
  have s: "SetSpecialPasswords dbg r = Inr ?r1"
    by (rule SetSpecialPasswords_dependent [OF dep base(1) asserts])
  have pw: "GetPassword ?r1 = ?tok" by (rule GetPassword_SetPassword)
  have shape: "placeholder_shape ?tok"
    using placeholder_shape_token [OF base(2)] by simp
  have t32: "take 32 (drop 2 ?tok) = CUUID_to_StringX bu"
    using CUUID_text_props(1) [OF base(2)] by simp
  have u: "GetUUID ?r1 END = GetUUID r END"
    by (simp add: GetUUID_def m_fields_SetPassword rest_SetPassword split: EntryType.splits)
  have k: "id_slot_of_kind (m_entrytype r) = (if take 2 ?tok = ''[['' then ALIASUUID else SHORTCUTUUID)"
    using dep by (auto simp: IsDependent_def IsAlias_def IsShortcut_def id_slot_of_kind_def)
  have p: "ParseSpecialPasswords dbg ?r1 =
        Inr (?r1\<lparr>m_fields := (m_fields ?r1)
                (BASEUUID \<mapsto> bu, UUID := None,
                 id_slot_of_kind (m_entrytype r) \<mapsto> GetUUID r END)\<rparr>)"
    unfolding ParseSpecialPasswords_result pw k [symmetric] u
    using shape own by (simp only: if_True t32 CUUID_text_props [OF base(2)] take_all order_refl)
  have first: "\<exists>r1 r2. SetSpecialPasswords dbg r = Inr r1 \<and> ParseSpecialPasswords dbg r1 = Inr r2 \<and>
            m_fields r2 BASEUUID = Some bu \<and>
            m_fields r2 (id_slot_of_kind (m_entrytype r)) = Some (GetUUID r END) \<and>
            m_entrytype r2 = m_entrytype r"
    using s p dep
    by (auto simp: rest_SetPassword id_slot_of_kind_def IsDependent_def IsAlias_def IsShortcut_def)
  show ?thesis using first Write_V3_record [of dbg env r out status out' r'] by blast
qed

theorem placeholder_codec_inverse_witness:
  "IsDependent alias_entry \<and> m_fields alias_entry BASEUUID = Some uuid_b \<and> length uuid_b = 16 \<and>
   length (GetUUID alias_entry END) = 16 \<and> uuid_b \<noteq> NullUUID \<and>
   uuid_b \<noteq> GetUUID alias_entry END \<and>
   (\<exists>r1 r2. SetSpecialPasswords True alias_entry = Inr r1 \<and>
            ParseSpecialPasswords True r1 = Inr r2 \<and>
            m_fields r2 BASEUUID = Some uuid_b \<and> m_fields r2 ALIASUUID = Some uuid_a \<and>
            m_entrytype r2 = ET_ALIAS) \<and>
   (\<exists>out'. Write_V3 True env0 alias_entry file_v3 = Inr (SUCCESS, out', alias_entry)) \<and>
   GetPassword alias_entry = ''own''"
proof -
  have h: "IsDependent alias_entry" "m_fields alias_entry BASEUUID = Some uuid_b"
    "length uuid_b = 16" "length (GetUUID alias_entry END) = 16"
    "True \<longrightarrow> uuid_b \<noteq> NullUUID \<and> uuid_b \<noteq> GetUUID alias_entry END"
    by (simp_all add: IsDependent_def IsAlias_def alias_entry_def empty_item_def uuid_a_def
          uuid_b_def GetUUID_def NullUUID_def)
  have k: "id_slot_of_kind (m_entrytype alias_entry) = ALIASUUID"
    "GetUUID alias_entry END = uuid_a" "m_entrytype alias_entry = ET_ALIAS"
    "GetPassword alias_entry = ''own''"
    by (simp_all add: id_slot_of_kind_def alias_entry_def empty_item_def GetUUID_def
          GetPassword_def GetField_def)
  have w: "\<exists>out'. Write_V3 True env0 alias_entry file_v3 = Inr (SUCCESS, out', alias_entry)"
    by (simp add: Write_V3_def ASSERT_def bind_err_def HasUUID_def alias_entry_def
          empty_item_def IsFieldSet_def id_field_of_kind_def IsDependent_def IsAlias_def
          IsShortcut_def GetUUID_def WriteField_def file_v3_def GetPassword_def GetField_def
          SetSpecialPasswords_def NullUUID_def uuid_a_def uuid_b_def SetPassword_def
          CItem_SetField_str_def CItem_SetField_def WriteCommon_def TextFields_def
          TimeFields_def BinaryFields_def WriteIfSet_def env0_def write_time_field_def
          CItem_GetTime_def read_fixed_def GetXTimeInt_def GetKBShortcut_def GetDCA_def
          GetShiftDCA_def write_binary_field_def WriteUnknowns_def Let_def fun_upd_twist)
  from placeholder_codec_inverse [OF h, of env0 file_v3 SUCCESS file_v3 alias_entry]
  have "\<exists>r1 r2. SetSpecialPasswords True alias_entry = Inr r1 \<and>
            ParseSpecialPasswords True r1 = Inr r2 \<and>
            m_fields r2 BASEUUID = Some uuid_b \<and> m_fields r2 ALIASUUID = Some uuid_a \<and>
            m_entrytype r2 = ET_ALIAS"
    by (simp add: k id_slot_of_kind_def)
  with h k w show ?thesis by simp
qed

subsection \<open>The cap on the chunks of a record\<close>

lemma Read_body_TITLE:
  assumes "chunks inp = (TITLE, ''t'') # cs"
  shows "Read_body dbg env0 inp r numread =
         Inr (Continue (CItem_SetField_str r TITLE ''t'') (numread + 6) (inp\<lparr>chunks := cs\<rparr>))"
  using assms
  by (simp add: Read_body_def ReadField_def IsItemDataField_def SetField_def SetTextField_def
        env0_def bind_err_def Let_def)

lemma SetField_str_idem:
  "CItem_SetField_str (CItem_SetField_str r TITLE ''t'') TITLE ''t'' = CItem_SetField_str r TITLE ''t''"
  by (simp add: CItem_SetField_str_def CItem_SetField_def)

lemma Read_loop_TITLEs:
  "chunks inp = replicate (Suc n) (TITLE, ''t'') @ rest \<Longrightarrow>
   Read_loop dbg env0 (Suc n) inp r numread =
     Inr (Fell_through SUCCESS, CItem_SetField_str r TITLE ''t'', numread + 6 * Suc n,
          inp\<lparr>chunks := rest\<rparr>)"
proof (induction n arbitrary: inp r numread)
  case 0
  then have c: "chunks inp = (TITLE, ''t'') # rest" by simp
  show ?case by (subst Read_loop.simps) (simp add: Read_body_TITLE [OF c])
next
  case (Suc n)
  let ?inp' = "inp\<lparr>chunks := replicate (Suc n) (TITLE, ''t'') @ rest\<rparr>"
  from Suc.prems have c: "chunks inp = (TITLE, ''t'') # (replicate (Suc n) (TITLE, ''t'') @ rest)"
    by simp
  have "chunks ?inp' = replicate (Suc n) (TITLE, ''t'') @ rest" by simp
  note ih = Suc.IH [OF this, of "CItem_SetField_str r TITLE ''t''" "numread + 6"]
  have "Read_loop dbg env0 (Suc (Suc n)) inp r numread =
        Read_loop dbg env0 (Suc n) ?inp' (CItem_SetField_str r TITLE ''t'') (numread + 6)"
    by (subst Read_loop.simps)
       (simp only: Read_body_TITLE [OF c] sum.case body_end.case nat.case)
  then show ?case
    by (simp only: ih SetField_str_idem) simp
qed

text \<open>
  Claim C5.  A stream that supplies more than 255 chunks for one record before END is
  to make \<open>Read\<close> signal a decode failure.  The stream below holds an id, 255 title
  chunks and END: 256 chunks before the terminator.  \<open>Read\<close> takes 255 of them, leaves
  the loop because \<open>emergencyExit\<close> has run out, and returns SUCCESS with the record
  read so far; the last title chunk and END stay in the file.
\<close>

theorem Read_cap_exceeded_returns_success:
  "length (takeWhile (\<lambda>c. fst c \<noteq> END) (chunks long_stream)) = 256 \<and>
   map_sum id (\<lambda>(ret, r, rest). (ret, m_fields r UUID, m_fields r TITLE, m_entrytype r, chunks rest))
     (Read True env0 long_stream empty_item) =
   Inr (RET SUCCESS, Some uuid_a, Some ''t'', ET_NORMAL, [(TITLE, ''t''), (END, [])])"
proof -
  have a: "length (takeWhile (\<lambda>c. fst c \<noteq> END) (chunks long_stream)) = 256"
    by (simp add: long_stream_def takeWhile_append)
  have "replicate 255 (TITLE, ''t'') = replicate (Suc 254) (TITLE, ''t'')" by simp
  also have "\<dots> = (TITLE, ''t'') # replicate 254 (TITLE, ''t'')" by (simp only: replicate_Suc)
  also have "\<dots> = replicate 254 (TITLE, ''t'') @ [(TITLE, ''t'')]"
    by (simp only: replicate_append_same)
  finally have eq: "replicate 255 (TITLE, ''t'') @ [(END, [])] =
        replicate (Suc 253) (TITLE, ''t'') @ [(TITLE, ''t''), (END, [])]"
    by simp
  let ?inp1 = "long_stream\<lparr>chunks := replicate (Suc 253) (TITLE, ''t'') @ [(TITLE, ''t''), (END, [])]\<rparr>"
  let ?r1 = "SetUUID (Clear empty_item) uuid_a UUID"
  have "chunks long_stream = (UUID, uuid_a) # (replicate (Suc 253) (TITLE, ''t'') @ [(TITLE, ''t''), (END, [])])"
    unfolding eq [symmetric] by (simp add: long_stream_def)
  then have b: "Read_body True env0 long_stream (Clear empty_item) 0 = Inr (Continue ?r1 21 ?inp1)"
    by (simp add: Read_body_def ReadField_def IsItemDataField_def SetField_def
          bind_err_def Let_def ASSERT_def uuid_a_def del: replicate_Suc replicate.simps)
  have c: "chunks ?inp1 = replicate (Suc 253) (TITLE, ''t'') @ [(TITLE, ''t''), (END, [])]"
    by simp
  have n: "(255::nat) = Suc (Suc 253)" by simp
  have d: "Read_loop True env0 255 long_stream (Clear empty_item) 0 =
           Inr (Fell_through SUCCESS, CItem_SetField_str ?r1 TITLE ''t'', 21 + 6 * Suc 253,
                ?inp1\<lparr>chunks := [(TITLE, ''t''), (END, [])]\<rparr>)"
    apply (subst Read_loop.simps)
    apply (simp only: b sum.case body_end.case n nat.case)
    apply (rule Read_loop_TITLEs [OF c])
    done
  show ?thesis
    using a
    unfolding Read_def d
    by (simp add: bind_err_def ParseSpecialPasswords_def GetPassword_def GetField_def Let_def
          CItem_SetField_str_def CItem_SetField_def SetUUID_def Clear_def CItem_Clear_def
          empty_item_def uuid_a_def del: replicate_Suc replicate.simps)
qed

subsection \<open>Unknown fields\<close>

lemma recognized_is_item_data: "ty \<in> set recognized_item_fields \<Longrightarrow> IsItemDataField ty"
  by (auto simp: recognized_item_fields_def TextFields_def BinaryFields_def TimeFields_def
        IsItemDataField_def)

lemma recognized_not_END: "ty \<in> set recognized_item_fields \<Longrightarrow> ty \<noteq> END"
  by (auto simp: recognized_item_fields_def TextFields_def BinaryFields_def TimeFields_def)

lemma SetField_unknown:
  assumes "ty \<notin> set recognized_item_fields" and "ty \<noteq> END"
  shows "SetField dbg env r ty data len = Inr (True, SetUnknownField r ty len data)"
  using assms
  by (simp add: recognized_item_fields_def TextFields_def BinaryFields_def TimeFields_def
        SetField_def)

lemma URFL_setters:
  "m_URFL (CItem_SetField r ft d n) = m_URFL r"
  "m_URFL (CItem_SetField_str r ft s) = m_URFL r"
  "m_URFL (SetUUID r u ft) = m_URFL r"
  "m_URFL (CItem_SetTime r ft t) = m_URFL r"
  "m_URFL (erase r ft) = m_URFL r"
  by (simp_all add: CItem_SetField_def CItem_SetField_str_def SetUUID_def CItem_SetTime_def
        erase_def)

lemma SetField_recognized:
  assumes "ty \<in> set recognized_item_fields" and "SetField dbg env r ty data len = Inr (ok, r')"
  shows "m_URFL r' = m_URFL r"
proof -
  have a: "\<And>p. bind_err (pull32 dbg data len) (\<lambda>p. case p of None \<Rightarrow> Inr (False, r) | Some i \<Rightarrow> Inr (True, SetXTimeInt r i)) = Inr (ok, r') \<Longrightarrow> m_URFL r' = m_URFL r"
    by (auto simp: bind_err_def SetXTimeInt_def URFL_setters split: sum.splits option.splits)
  have b: "\<And>sh. bind_err (pull16 dbg data len) (\<lambda>p. case p of None \<Rightarrow> Inr (False, r) | Some i \<Rightarrow> Inr (True, SetDCA r i sh)) = Inr (ok, r') \<Longrightarrow> m_URFL r' = m_URFL r"
    by (auto simp: bind_err_def SetDCA_def URFL_setters split: sum.splits option.splits)
  have c: "bind_err (pull8 dbg data len) (\<lambda>p. case p of None \<Rightarrow> Inr (False, r) | Some uc \<Rightarrow> Inr (True, SetProtected r (uc \<noteq> CHR 0x00))) = Inr (ok, r') \<Longrightarrow> m_URFL r' = m_URFL r"
    by (auto simp: bind_err_def SetProtected_def URFL_setters split: sum.splits option.splits)
  have d: "bind_err (pull32 dbg data 4) (\<lambda>p. case p of None \<Rightarrow> Inr (False, r) | Some i \<Rightarrow> Inr (True, SetKBShortcut r i)) = Inr (ok, r') \<Longrightarrow> m_URFL r' = m_URFL r"
    by (auto simp: bind_err_def SetKBShortcut_def URFL_setters split: sum.splits option.splits)
  have e: "SetTextField env r ty data len = (ok, r') \<Longrightarrow> m_URFL r' = m_URFL r"
    by (auto simp: SetTextField_def URFL_setters split: option.splits)
  have f: "SetTimeField env r ty data len = (ok, r') \<Longrightarrow> m_URFL r' = m_URFL r"
    by (auto simp: SetTimeField_def URFL_setters split: option.splits)
  from assms(2) assms(1) show ?thesis
    unfolding SetField_def
    apply (auto simp: ASSERT_def SetShiftDCA_def URFL_setters dest: a b c d e f
          split: if_splits simp del: set_simps list.set)
    apply (simp add: recognized_item_fields_def TextFields_def BinaryFields_def TimeFields_def)
    done
qed

lemma SetUnknownField_URFL:
  "m_URFL (SetUnknownField r ty (length data) data) = m_URFL r @ [(ty, data)]"
  by (simp add: SetUnknownField_def)

lemma Read_body_URFL:
  assumes "Read_body dbg env inp r numread = Inr b"
  shows "\<exists>cs. chunks inp = cs @ chunks (body_inp b) \<and>
              m_URFL (body_rec b) = m_URFL r @ unknown_chunks cs"
proof (cases "chunks inp")
  case Nil
  with assms have "b = Stop (Fell_through SUCCESS) r numread inp"
    by (simp add: Read_body_def ReadField_def)
  then show ?thesis by (simp add: body_rec_def body_inp_def unknown_chunks_def)
next
  case (Cons c rest)
  obtain ty data where c: "c = (ty, data)" by (cases c)
  let ?inp' = "inp\<lparr>chunks := rest\<rparr>"
  have rf: "ReadField inp = Some (5 + length data, ty, data, length data, ?inp')"
    using Cons c by (simp add: ReadField_def)
  have goal: "body_inp b = ?inp' \<and> m_URFL (body_rec b) = m_URFL r @ unknown_chunks [(ty, data)]"
  proof (cases "ty \<in> set recognized_item_fields")
    case True
    note idf = recognized_is_item_data [OF True]
    from assms obtain ok r' where sf: "SetField dbg env r ty data (length data) = Inr (ok, r')"
      and b: "body_rec b = r'" "body_inp b = ?inp'"
      unfolding Read_body_def rf
      by (auto simp: idf bind_err_def Let_def body_rec_def body_inp_def
            split: sum.splits if_splits)
    from SetField_recognized [OF True sf] b True show ?thesis
      by (simp add: unknown_chunks_def is_unknown_tag_def)
  next
    case False
    show ?thesis
    proof (cases "ty = END \<or> IsItemAttField ty")
      case True
      then have nd: "\<not> IsItemDataField ty"
        by (auto simp: IsItemDataField_def IsItemAttField_def split: FieldType.splits)
      from assms True nd show ?thesis
        unfolding Read_body_def rf
        by (auto simp: Let_def body_rec_def body_inp_def unknown_chunks_def is_unknown_tag_def
              split: if_splits)
    next
      case F2: False
      then have u: "is_unknown_tag ty" using False by (simp add: is_unknown_tag_def)
      from assms F2 False show ?thesis
        unfolding Read_body_def rf
        by (auto simp: Let_def body_rec_def body_inp_def unknown_chunks_def u
              SetField_unknown bind_err_def SetUnknownField_URFL split: if_splits)
    qed
  qed
  show ?thesis
    by (rule exI [of _ "[(ty, data)]"]) (simp add: goal Cons c)
qed

lemma Read_loop_URFL:
  "Read_loop dbg env n inp r numread = Inr (x, r', numread', inp') \<Longrightarrow>
   \<exists>cs. chunks inp = cs @ chunks inp' \<and> m_URFL r' = m_URFL r @ unknown_chunks cs"
proof (induction n arbitrary: inp r numread)
  case 0
  from "0.prems" obtain b where b: "Read_body dbg env inp r numread = Inr b"
    and e: "body_rec b = r'" "body_inp b = inp'"
    by (subst (asm) Read_loop.simps)
       (auto simp: body_rec_def body_inp_def split: sum.splits body_end.splits)
  from Read_body_URFL [OF b] e show ?case by simp
next
  case (Suc n)
  from Suc.prems obtain b where b: "Read_body dbg env inp r numread = Inr b"
    by (subst (asm) Read_loop.simps) (auto split: sum.splits)
  from Read_body_URFL [OF b] obtain cs where
    cs: "chunks inp = cs @ chunks (body_inp b)" "m_URFL (body_rec b) = m_URFL r @ unknown_chunks cs"
    by blast
  show ?case
  proof (cases "\<exists>r1 n1 f1 k. b = Continue r1 n1 f1 \<and> n = Suc k")
    case True
    then obtain r1 n1 f1 k where bc: "b = Continue r1 n1 f1" and n: "n = Suc k" by blast
    from Suc.prems have "Read_loop dbg env n f1 r1 n1 = Inr (x, r', numread', inp')"
      by (subst (asm) Read_loop.simps) (simp add: b bc n)
    from Suc.IH [OF this] obtain cs' where
      "chunks f1 = cs' @ chunks inp'" "m_URFL r' = m_URFL r1 @ unknown_chunks cs'" by blast
    with cs bc show ?thesis
      by (intro exI [of _ "cs @ cs'"]) (simp add: body_rec_def body_inp_def unknown_chunks_def)
  next
    case False
    with Suc.prems b have "body_rec b = r'" "body_inp b = inp'"
      by (subst (asm) Read_loop.simps;
          auto simp: body_rec_def body_inp_def split: body_end.splits nat.splits)+
    with cs show ?thesis by auto
  qed
qed

lemma put_simps [simp]:
  "put out [] = out" "put (put out xs) ys = put out (xs @ ys)"
  "timeFieldLen (put out xs) = timeFieldLen out" "chunks (put out xs) = chunks out @ xs"
  by (simp_all add: put_def)

lemma WriteField_put: "snd (WriteField out ty d n) = put out [(ty, take n d)]"
  by (simp add: WriteField_def put_def)

lemma length_nat_le [simp]: "length (nat_le k n) = k"
  by (induction k arbitrary: n) simp_all

lemma length_putInt [simp]:
  "length (putInt32 i) = 4" "length (putInt16 j) = 2" "length (putInt64 t) = 8"
  by (simp_all add: putInt32_def putInt16_def putInt64_def)

lemma WriteIfSet_text:
  "WriteIfSet dbg env r ft out True = Inr (n, out') \<Longrightarrow> out' = put out (text_chunk env r ft)"
  by (auto simp: WriteIfSet_def ASSERT_def text_chunk_def text_payload_def Let_def WriteField_def
        put_def split: option.splits if_splits)

lemma WriteIfSet_raw:
  "WriteIfSet dbg env r ft out False = Inr (n, out') \<Longrightarrow> out' = put out (raw_chunk r ft)"
  by (auto simp: WriteIfSet_def ASSERT_def raw_chunk_def WriteField_def put_def
        split: option.splits if_splits)

lemma write_text_fields_chunks:
  "write_text_fields dbg env r fts out = Inr out' \<Longrightarrow>
   out' = put out (concat (map (text_chunk env r) fts))"
proof (induction fts arbitrary: out)
  case Nil
  then show ?case by simp
next
  case (Cons ft fts)
  from Cons.prems obtain n out1 where a: "WriteIfSet dbg env r ft out True = Inr (n, out1)"
    and b: "write_text_fields dbg env r fts out1 = Inr out'"
    by (auto simp: bind_err_def split: sum.splits)
  from Cons.IH [OF b] WriteIfSet_text [OF a] show ?case by simp
qed

lemma read_fixed_value:
  "read_fixed dbg n get dflt fld = Inr v \<Longrightarrow> v = fixed_value get dflt fld"
  by (auto simp: read_fixed_def fixed_value_def ASSERT_def split: option.splits if_splits)

lemma write_time_field_chunks:
  "write_time_field dbg env r ft out = Inr out' \<Longrightarrow>
   out' = put out (time_chunk env (timeFieldLen out) r ft)"
  by (auto simp: write_time_field_def bind_err_def CItem_GetTime_def ASSERT_def time_chunk_def
        time_payload_def WriteField_put Let_def
        dest!: read_fixed_value split: sum.splits if_splits)

lemma write_time_fields_chunks:
  "write_time_fields dbg env r fts out = Inr out' \<Longrightarrow>
   out' = put out (concat (map (time_chunk env (timeFieldLen out) r) fts))"
proof (induction fts arbitrary: out)
  case Nil
  then show ?case by simp
next
  case (Cons ft fts)
  from Cons.prems obtain out1 where a: "write_time_field dbg env r ft out = Inr out1"
    and b: "write_time_fields dbg env r fts out1 = Inr out'"
    by (auto simp: bind_err_def split: sum.splits)
  from Cons.IH [OF b] write_time_field_chunks [OF a] show ?case by simp
qed

lemma write_binary_field_chunks:
  "write_binary_field dbg r ft out = Inr out' \<Longrightarrow> out' = put out (raw_chunk r ft)"
  by (auto simp: write_binary_field_def ASSERT_def raw_chunk_def WriteField_put
        split: option.splits if_splits)

lemma write_binary_fields_chunks:
  "write_binary_fields dbg r fts out = Inr out' \<Longrightarrow>
   out' = put out (concat (map (raw_chunk r) fts))"
proof (induction fts arbitrary: out)
  case Nil
  then show ?case by simp
next
  case (Cons ft fts)
  from Cons.prems obtain out1 where a: "write_binary_field dbg r ft out = Inr out1"
    and b: "write_binary_fields dbg r fts out1 = Inr out'"
    by (auto simp: bind_err_def split: sum.splits)
  from Cons.IH [OF b] write_binary_field_chunks [OF a] show ?case by simp
qed

lemma write_unknowns_chunks: "write_unknowns us out = put out us"
  by (induction us arbitrary: out) (auto simp: WriteField_put)

lemma WriteCommon_chunks:
  assumes "WriteCommon dbg env r out = Inr (st, out')"
  shows "st = SUCCESS \<and>
         out' = put out (common_chunks env (timeFieldLen out) r @ m_URFL r @ [(END, [])])"
proof -
  from assms obtain out1 out2 i32 kbs dca sdca n7 out7 out8 where
    t: "write_text_fields dbg env r TextFields out = Inr out1"
    and tm: "write_time_fields dbg env r TimeFields out1 = Inr out2"
    and i: "GetXTimeInt dbg r = Inr i32" "GetKBShortcut dbg r = Inr kbs"
           "GetDCA dbg r False = Inr dca" "GetShiftDCA dbg r = Inr sdca"
    and p: "WriteIfSet dbg env r PROTECTED
              (put out2
                ((if 0 < sint i32 \<and> sint i32 \<le> 3650 then [(XTIME_INT, putInt32 i32)] else []) @
                 (if kbs \<noteq> 0 then [(KBSHORTCUT, putInt32 kbs)] else []) @
                 (if sint (minDCA env) \<le> sint dca \<and> sint dca \<le> sint (maxDCA env)
                  then [(DCA, putInt16 dca)] else []) @
                 (if sint (minDCA env) \<le> sint sdca \<and> sint sdca \<le> sint (maxDCA env)
                  then [(SHIFTDCA, putInt16 sdca)] else []))) False = Inr (n7, out7)"
    and b: "write_binary_fields dbg r BinaryFields out7 = Inr out8"
    and e: "st = SUCCESS" "out' = put out8 (m_URFL r @ [(END, [])])"
    unfolding WriteCommon_def
    by (auto simp: bind_err_def Let_def WriteField_put WriteUnknowns_def write_unknowns_chunks
          WriteField_def put_def
          split: sum.splits prod.splits if_splits)
  have iv: "i32 = fixed_value getInt32 0 (m_fields r XTIME_INT)"
    "kbs = fixed_value getInt32 0 (m_fields r KBSHORTCUT)"
    "dca = fixed_value getInt16 (- 1) (m_fields r DCA)"
    "sdca = fixed_value getInt16 (- 1) (m_fields r SHIFTDCA)"
    using i by (auto simp: GetXTimeInt_def GetKBShortcut_def GetDCA_def GetShiftDCA_def
                  dest!: read_fixed_value)
  show ?thesis
    unfolding e write_binary_fields_chunks [OF b] WriteIfSet_raw [OF p]
      write_time_fields_chunks [OF tm] write_text_fields_chunks [OF t]
    by (simp add: common_chunks_def int_chunks_def iv Let_def)
qed

lemma id_field_of_kind_Inr:
  "id_field_of_kind dbg r = Inr ft \<Longrightarrow> ft = id_slot_of_kind (m_entrytype r)"
  by (auto simp: id_field_of_kind_def id_slot_of_kind_def IsDependent_def IsAlias_def
        IsShortcut_def ASSERT_def split: if_splits EntryType.splits)

lemma Write_V4_chunks:
  assumes "Write_V4 dbg env r out = Inr (st, out', r')"
  shows "st = SUCCESS \<and> r' = r \<and>
         out' = put out (id_chunks_v4 r @ common_chunks env (timeFieldLen out) r @ m_URFL r @
                         [(END, [])])"
proof -
  from assms obtain ft where f: "id_field_of_kind dbg r = Inr ft"
    unfolding Write_V4_def
    by (cases "id_field_of_kind dbg r") (auto simp: ASSERT_def bind_err_def split: if_splits)
  note k = id_field_of_kind_Inr [OF f]
  have w: "WriteCommon dbg env r (put out (id_chunks_v4 r)) = Inr (st, out') \<and> r' = r"
    using assms unfolding Write_V4_def
    by (cases "IsDependent r"; cases "IsFieldSet r ATTREF";
        auto simp: f k [symmetric] ASSERT_def bind_err_def Let_def WriteField_put id_chunks_v4_def
          split: if_splits sum.splits prod.splits)
  from WriteCommon_chunks [of dbg env r "put out (id_chunks_v4 r)" st out'] w show ?thesis
    by simp
qed

lemma URFL_SetSpecialPasswords: "SetSpecialPasswords dbg r = Inr r1 \<Longrightarrow> m_URFL r1 = m_URFL r"
  using SetSpecialPasswords_cases [of dbg r r1] by (auto simp: rest_SetPassword)

lemma Write_V3_chunks:
  assumes "Write_V3 dbg env r out = Inr (st, out', r')"
  shows "\<exists>self1. SetSpecialPasswords dbg r = Inr self1 \<and> st = SUCCESS \<and>
           r' = SetPassword self1 (GetPassword r) \<and>
           out' = put out ([(UUID, take 16 (GetUUID r (id_slot_of_kind (m_entrytype r))))] @
                           common_chunks env (timeFieldLen out) self1 @ m_URFL r @ [(END, [])])"
proof -
  from assms obtain ft self1 where
    f: "id_field_of_kind dbg r = Inr ft"
    and s: "SetSpecialPasswords dbg r = Inr self1"
    and w: "WriteCommon dbg env self1 (put out [(UUID, take 16 (GetUUID r ft))]) = Inr (st, out')"
    and r: "r' = SetPassword self1 (GetPassword r)"
    unfolding Write_V3_def
    by (auto simp: ASSERT_def bind_err_def Let_def WriteField_put
          split: if_splits sum.splits prod.splits)
  from WriteCommon_chunks [OF w] s r id_field_of_kind_Inr [OF f] URFL_SetSpecialPasswords [OF s]
  show ?thesis by simp
qed

lemma URFL_ParseSpecialPasswords:
  "ParseSpecialPasswords dbg r = Inr r2 \<Longrightarrow> m_URFL r2 = m_URFL r"
  unfolding ParseSpecialPasswords_result by (auto split: if_splits)

lemma Read_URFL:
  assumes "Read dbg env inp r0 = Inr (ret, r, inp')"
  shows "\<exists>cs. chunks inp = cs @ chunks inp' \<and> m_URFL r = unknown_chunks cs"
proof -
  have p: "\<And>r1 r2 et. ParseSpecialPasswords dbg r1 = Inr r2 \<Longrightarrow>
             m_URFL (r2\<lparr>m_entrytype := et\<rparr>) = m_URFL r1"
    by (simp add: URFL_ParseSpecialPasswords)
  from assms have "\<exists>x r1 numread.
      Read_loop dbg env 255 inp (Clear r0) 0 = Inr (x, r1, numread, inp') \<and> m_URFL r = m_URFL r1"
    unfolding Read_def
    by (auto simp: bind_err_def ASSERT_def p URFL_ParseSpecialPasswords
          split: sum.splits loop_end.splits if_splits)
  then obtain x r1 numread where
    l: "Read_loop dbg env 255 inp (Clear r0) 0 = Inr (x, r1, numread, inp')"
    and u: "m_URFL r = m_URFL r1" by blast
  from Read_loop_URFL [OF l] u show ?thesis
    by (simp add: Clear_def CItem_Clear_def)
qed

text \<open>
  The unknown chunks among those that \<open>Read\<close> takes from the file.  Every chunk taken
  whose tag is neither a recognized item-data field, nor END, nor the tag of an attachment
  record is stored as an unknown field with its tag and bytes, in the order read, and
  nothing else is; and every later \<open>Write\<close>, of either format generation, of a record
  that still has this list of unknown fields emits them unchanged, in order, right before
  the END chunk.
\<close>

lemma unknown_fields_preserved:
  assumes rd: "Read dbg env inp r0 = Inr (ret, r, inp')"
    and md: "m_URFL r_mod = m_URFL r"
    and wr: "Write_V3 dbg env r_mod out = Inr (st, out', r') \<or>
             Write_V4 dbg env r_mod out = Inr (st, out', r')"
  shows "\<exists>consumed pre.
           chunks inp = consumed @ chunks inp' \<and>
           m_URFL r = unknown_chunks consumed \<and>
           chunks out' = chunks out @ pre @ unknown_chunks consumed @ [(END, [])]"
proof -
  from Read_URFL [OF rd] obtain cs where
    cs: "chunks inp = cs @ chunks inp'" "m_URFL r = unknown_chunks cs" by blast
  from wr have "\<exists>pre. chunks out' = chunks out @ pre @ m_URFL r_mod @ [(END, [])]"
  proof
    assume "Write_V3 dbg env r_mod out = Inr (st, out', r')"
    from Write_V3_chunks [OF this] show ?thesis by auto
  next
    assume "Write_V4 dbg env r_mod out = Inr (st, out', r')"
    from Write_V4_chunks [OF this] show ?thesis by auto
  qed
  with cs md show ?thesis by auto
qed

lemma Read_unknown_stream:
  "Read True env0 unknown_stream empty_item = Inr (RET SUCCESS, unknown_item, unknown_stream\<lparr>chunks := []\<rparr>)"
  unfolding Read_def
  apply (subst Read_loop.simps, simp add: Read_body_def ReadField_def unknown_stream_def
           IsItemDataField_def IsItemAttField_def SetField_def SetTextField_def env0_def
           bind_err_def Let_def ASSERT_def uuid_a_def SetUnknownField_def)+
  apply (simp add: ParseSpecialPasswords_def GetPassword_def GetField_def Let_def
          CItem_SetField_str_def CItem_SetField_def SetUUID_def Clear_def CItem_Clear_def
          empty_item_def unknown_item_def uuid_a_def)
  done

lemma Write_V4_modified_item:
  "Write_V4 True env0 modified_item file_v4 =
     Inr (SUCCESS,
          file_v4\<lparr>chunks := [(UUID, uuid_a), (TITLE, ''t''), (PASSWORD, ''pw''),
                              (UNNAMED_FIELD 0xdf, ''xyz''), (UNNAMED_ITEM_FIELD 0x30, ''''),
                              (END, [])]\<rparr>,
          modified_item)"
  by (simp add: Write_V4_def ASSERT_def bind_err_def HasUUID_def modified_item_def unknown_item_def
        IsFieldSet_def id_field_of_kind_def IsDependent_def IsAlias_def
        IsShortcut_def GetUUID_def WriteField_def file_v4_def
        uuid_a_def SetPassword_def
        CItem_SetField_str_def CItem_SetField_def WriteCommon_def TextFields_def
        TimeFields_def BinaryFields_def WriteIfSet_def env0_def write_time_field_def
        CItem_GetTime_def read_fixed_def GetXTimeInt_def GetKBShortcut_def GetDCA_def
        GetShiftDCA_def write_binary_field_def WriteUnknowns_def Let_def)

lemma unknown_fields_preserved_witness:
  "Read True env0 unknown_stream empty_item =
     Inr (RET SUCCESS, unknown_item, unknown_stream\<lparr>chunks := []\<rparr>) \<and>
   m_URFL modified_item = m_URFL unknown_item \<and>
   Write_V4 True env0 modified_item file_v4 =
     Inr (SUCCESS,
          file_v4\<lparr>chunks := [(UUID, uuid_a), (TITLE, ''t''), (PASSWORD, ''pw''),
                              (UNNAMED_FIELD 0xdf, ''xyz''), (UNNAMED_ITEM_FIELD 0x30, ''''),
                              (END, [])]\<rparr>,
          modified_item) \<and>
   (\<exists>consumed pre.
      chunks unknown_stream = consumed @ [] \<and>
      m_URFL unknown_item = unknown_chunks consumed \<and>
      [(UUID, uuid_a), (TITLE, ''t''), (PASSWORD, ''pw''),
       (UNNAMED_FIELD 0xdf, ''xyz''), (UNNAMED_ITEM_FIELD 0x30, ''''), (END, [])] =
      [] @ pre @ unknown_chunks consumed @ [(END, [])])"
proof -
  have md: "m_URFL modified_item = m_URFL unknown_item"
    by (simp add: modified_item_def rest_SetPassword)
  from unknown_fields_preserved [OF Read_unknown_stream md disjI2 [OF Write_V4_modified_item]]
  show ?thesis
    using Read_unknown_stream md Write_V4_modified_item
    by (simp add: file_v4_def)
qed

lemma Read_capped_unknown_stream:
  "Read True env0 capped_unknown_stream empty_item =
     Inr (RET SUCCESS, capped_item,
          capped_unknown_stream\<lparr>chunks := [(UNNAMED_FIELD 0xdf, ''xyz''), (END, [])]\<rparr>)"
proof -
  let ?rest = "[(UNNAMED_FIELD 0xdf, ''xyz''), (END, [])]"
  let ?inp1 = "capped_unknown_stream\<lparr>chunks := replicate (Suc 253) (TITLE, ''t'') @ ?rest\<rparr>"
  let ?r1 = "SetUUID (Clear empty_item) uuid_a UUID"
  have "chunks capped_unknown_stream = (UUID, uuid_a) # (replicate (Suc 253) (TITLE, ''t'') @ ?rest)"
    by (simp add: capped_unknown_stream_def del: replicate_Suc replicate.simps)
  then have b: "Read_body True env0 capped_unknown_stream (Clear empty_item) 0 =
                Inr (Continue ?r1 21 ?inp1)"
    by (simp add: Read_body_def ReadField_def IsItemDataField_def SetField_def
          bind_err_def Let_def ASSERT_def uuid_a_def del: replicate_Suc replicate.simps)
  have c: "chunks ?inp1 = replicate (Suc 253) (TITLE, ''t'') @ ?rest"
    by simp
  have n: "(255::nat) = Suc (Suc 253)" by simp
  have d: "Read_loop True env0 255 capped_unknown_stream (Clear empty_item) 0 =
           Inr (Fell_through SUCCESS, CItem_SetField_str ?r1 TITLE ''t'', 21 + 6 * Suc 253,
                ?inp1\<lparr>chunks := ?rest\<rparr>)"
    apply (subst Read_loop.simps)
    apply (simp only: b sum.case body_end.case n nat.case)
    apply (rule Read_loop_TITLEs [OF c])
    done
  show ?thesis
    unfolding Read_def d
    by (simp add: bind_err_def ParseSpecialPasswords_def GetPassword_def GetField_def Let_def
          CItem_SetField_str_def CItem_SetField_def SetUUID_def Clear_def CItem_Clear_def
          empty_item_def capped_item_def uuid_a_def fun_upd_twist
          del: replicate_Suc replicate.simps)
qed

lemma Write_V4_capped_item:
  "Write_V4 True env0 capped_item file_v4 =
     Inr (SUCCESS, file_v4\<lparr>chunks := [(UUID, uuid_a), (TITLE, ''t''), (END, [])]\<rparr>, capped_item)"
  by (simp add: Write_V4_def ASSERT_def bind_err_def HasUUID_def capped_item_def empty_item_def
        IsFieldSet_def id_field_of_kind_def IsDependent_def IsAlias_def
        IsShortcut_def GetUUID_def WriteField_def file_v4_def
        uuid_a_def WriteCommon_def TextFields_def
        TimeFields_def BinaryFields_def WriteIfSet_def env0_def write_time_field_def
        CItem_GetTime_def read_fixed_def GetXTimeInt_def GetKBShortcut_def GetDCA_def
        GetShiftDCA_def write_binary_field_def WriteUnknowns_def Let_def)

text \<open>
  Claim C8.  Every chunk read whose tag is neither a recognized item-data field, nor END,
  nor the tag of an attachment record is to be stored as an unknown field, and every
  later \<open>Write\<close> is to emit it unchanged, so that a record with an injected unrecognized
  tag comes out of a read / modify / write round trip with that tag and its bytes.  The
  stream below holds an id, 254 title chunks, a chunk with the unknown tag 0xdf and END:
  256 chunks before the terminator.  \<open>Read\<close> takes 255 of them, leaves the loop because
  \<open>emergencyExit\<close> has run out, and returns SUCCESS with a record that has no unknown
  field; the unknown chunk stays in the file, and the \<open>Write\<close> of the record read emits
  no chunk with the tag 0xdf.
\<close>

theorem Read_drops_unknown_past_cap:
  "length (takeWhile (\<lambda>c. fst c \<noteq> END) (chunks capped_unknown_stream)) = 256 \<and>
   is_unknown_tag (UNNAMED_FIELD 0xdf) \<and>
   Read True env0 capped_unknown_stream empty_item =
     Inr (RET SUCCESS, capped_item,
          capped_unknown_stream\<lparr>chunks := [(UNNAMED_FIELD 0xdf, ''xyz''), (END, [])]\<rparr>) \<and>
   m_URFL capped_item = [] \<and>
   Write_V4 True env0 capped_item file_v4 =
     Inr (SUCCESS, file_v4\<lparr>chunks := [(UUID, uuid_a), (TITLE, ''t''), (END, [])]\<rparr>, capped_item)"
proof -
  have a: "length (takeWhile (\<lambda>c. fst c \<noteq> END) (chunks capped_unknown_stream)) = 256"
    by (simp add: capped_unknown_stream_def takeWhile_append)
  have u: "is_unknown_tag (UNNAMED_FIELD 0xdf)"
    by (simp add: is_unknown_tag_def recognized_item_fields_def TextFields_def BinaryFields_def
          TimeFields_def IsItemAttField_def)
  have e: "m_URFL capped_item = []" by (simp add: capped_item_def empty_item_def)
  from a u e Read_capped_unknown_stream Write_V4_capped_item show ?thesis by simp
qed

subsection \<open>Updating the password\<close>

lemma le_nat_nat_le: "le_nat (nat_le k n) = n mod 256 ^ k"
proof (induction k arbitrary: n)
  case 0
  show ?case by simp
next
  case (Suc k)
  have "n mod 256 + 256 * (n div 256 mod 256 ^ k) = n mod (256 * 256 ^ k)"
    by (simp add: mod_mult2_eq)
  then show ?case by (simp add: Suc)
qed

lemma getInt64_putInt64 [simp]: "getInt64 (putInt64 t) = t"
proof -
  have "unat t mod 256 ^ 8 = unat t mod 2 ^ 64" by simp
  also have "\<dots> = unat t" using unsigned_less [of t, where 'a = nat] by simp
  finally show ?thesis
    by (simp add: getInt64_def putInt64_def le_nat_nat_le)
qed

lemma GetTime_SetTime: "CItem_GetTime dbg (CItem_SetTime r ft t) ft = Inr t"
  by (simp add: CItem_GetTime_def CItem_SetTime_def CItem_SetField_def read_fixed_def ASSERT_def)

lemma to_StringX_trim:
  "PWHistList_to_StringX h = PWHistList_to_StringX (h\<lparr>entries := trim_excess h\<rparr>)"
  by (simp add: PWHistList_to_StringX_def trim_excess_def Let_def)

lemma trim_addEntry:
  "trim_excess (addEntry h e) = drop (Suc (length (entries h)) - maxEntries h) (entries h @ [e])"
  by (simp add: trim_excess_def addEntry_def)

lemma to_StringX_saving_not_empty:
  "saving h \<Longrightarrow> PWHistList_to_StringX h \<noteq> ''0'' \<and> PWHistList_to_StringX h \<noteq> ''00000'' \<and>
     PWHistList_to_StringX h \<noteq> []"
  by (simp add: PWHistList_to_StringX_def Let_def)

lemma UpdatePasswordHistory_off:
  "\<not> saving (history_before env r) \<Longrightarrow> UpdatePasswordHistory dbg env r = Inr r"
  by (cases "GetPWHistory r = []") (simp_all add: UpdatePasswordHistory_def history_before_def Let_def)

lemma UpdatePasswordHistory_on:
  assumes "saving (history_before env r)" "GetPMTime dbg r = Inr pm" "GetCTime dbg r = Inr ct"
  shows "UpdatePasswordHistory dbg env r =
         Inr (CItem_SetField_str r PWHIST
                (PWHistList_to_StringX (addEntry (history_before env r)
                                           (old_password_entry env r pm ct))))"
proof -
  let ?h = "addEntry (history_before env r) (old_password_entry env r pm ct)"
  have s: "saving ?h"
    using assms(1) by (simp add: addEntry_def)
  have n: "SetPWHistory r (PWHistList_to_StringX ?h) = CItem_SetField_str r PWHIST (PWHistList_to_StringX ?h)"
    using to_StringX_saving_not_empty [OF s] by (simp add: SetPWHistory_def)
  have t: "bind_err (GetPMTime dbg r) (\<lambda>t0. bind_err (if t0 = 0 then GetCTime dbg r else Inr t0) f)
           = f (if pm = 0 then ct else pm)" for f :: "time_t \<Rightarrow> error + CItemData"
    by (simp add: assms(2,3) bind_err_def)
  have e: "\<lparr>changetttdate = (if pm = 0 then ct else pm),
            changedate = (if ConvertToDateTimeString env (if pm = 0 then ct else pm) = []
                          then IDSC_UNKNOWN env
                          else ConvertToDateTimeString env (if pm = 0 then ct else pm)),
            password = GetPassword r\<rparr> = old_password_entry env r pm ct"
    by (simp add: old_password_entry_def Let_def)
  show ?thesis
  proof (cases "GetPWHistory r = []")
    case True
    with assms(1) have sv: "SavePasswordHistory env" by (simp add: history_before_def)
    have hb: "history_before env r = (PWHistList_of_StringX env [])\<lparr>saving := SavePasswordHistory env,
                                          maxEntries := NumPWHistoryDefault env\<rparr>"
      using True by (simp add: history_before_def)
    show ?thesis
      unfolding UpdatePasswordHistory_def Let_def t
      by (simp only: True if_True refl e hb [symmetric] n) (simp add: hb sv)
  next
    case False
    have hb: "history_before env r = PWHistList_of_StringX env (GetPWHistory r)"
      using False by (simp add: history_before_def)
    show ?thesis
      unfolding UpdatePasswordHistory_def Let_def t
      by (simp only: False if_False e hb [symmetric] n) (simp add: assms(1))
  qed
qed

lemma fields_after_history:
  "ft \<noteq> PWHIST \<Longrightarrow> m_fields (CItem_SetField_str r PWHIST s) ft = m_fields r ft"
  by (simp add: CItem_SetField_str_def CItem_SetField_def erase_def)

lemma fields_SetTime:
  "ft \<noteq> wt \<Longrightarrow> m_fields (CItem_SetTime r wt t) ft = m_fields r ft"
  by (simp add: CItem_SetTime_def CItem_SetField_def erase_def)

lemma GetTime_other:
  "ft \<noteq> wt \<Longrightarrow> CItem_GetTime dbg (CItem_SetTime r wt t) ft = CItem_GetTime dbg r ft"
  by (simp add: CItem_GetTime_def fields_SetTime)

lemma UpdatePassword_after_history:
  assumes "UpdatePasswordHistory dbg env r = Inr r1"
    and "m_fields r1 XTIME_INT = m_fields r XTIME_INT"
    and "GetXTimeInt dbg r = Inr xint"
  shows "\<exists>r'. UpdatePassword dbg env now r new_password = Inr r' \<and>
           GetPassword r' = new_password \<and> GetPMTime dbg r' = Inr now \<and>
           m_fields r' PWHIST = m_fields r1 PWHIST"
proof -
  let ?r3 = "SetPMTime (SetPassword r1 new_password) now"
  have x: "GetXTimeInt dbg ?r3 = Inr xint"
    using assms(2,3)
    by (simp add: GetXTimeInt_def SetPMTime_def fields_SetTime m_fields_SetPassword)
  have u: "UpdatePassword dbg env now r new_password =
           Inr (SetXTime ?r3 (if xint \<noteq> 0 then now + scast (xint * 86400) else 0))"
    by (simp add: UpdatePassword_def assms(1) bind_err_def Let_def x)
  have a: "GetPassword (SetXTime ?r3 t) = new_password" for t
    by (simp add: GetPassword_def GetField_def SetXTime_def SetPMTime_def fields_SetTime)
       (simp add: GetPassword_SetPassword GetPassword_def [symmetric] GetField_def [symmetric])
  have b: "GetPMTime dbg (SetXTime ?r3 t) = Inr now" for t
    by (simp add: GetPMTime_def SetXTime_def SetPMTime_def GetTime_other GetTime_SetTime)
  have c: "m_fields (SetXTime ?r3 t) PWHIST = m_fields r1 PWHIST" for t
    by (simp add: SetXTime_def SetPMTime_def fields_SetTime m_fields_SetPassword)
  show ?thesis unfolding u using a b c by blast
qed

lemma UpdatePassword_history_result:
  assumes "GetPMTime dbg r = Inr pm" "GetCTime dbg r = Inr ct" "GetXTimeInt dbg r = Inr xint"
  shows "\<exists>r'. UpdatePassword dbg env now r new_password = Inr r' \<and>
           GetPassword r' = new_password \<and> GetPMTime dbg r' = Inr now \<and>
           m_fields r' PWHIST =
             (if saving (history_before env r)
              then Some (PWHistList_to_StringX
                     ((history_before env r)
                        \<lparr>entries := drop (Suc (length (entries (history_before env r))) -
                                          maxEntries (history_before env r))
                                       (entries (history_before env r) @
                                        [old_password_entry env r pm ct])\<rparr>))
              else m_fields r PWHIST)"
proof (cases "saving (history_before env r)")
  case False
  from UpdatePassword_after_history [OF UpdatePasswordHistory_off [OF False] refl assms(3)] False
  show ?thesis by simp
next
  case True
  let ?h = "addEntry (history_before env r) (old_password_entry env r pm ct)"
  let ?r1 = "CItem_SetField_str r PWHIST (PWHistList_to_StringX ?h)"
  have s: "saving ?h" using True by (simp add: addEntry_def)
  have x: "m_fields ?r1 XTIME_INT = m_fields r XTIME_INT"
    by (simp add: fields_after_history)
  have p: "m_fields ?r1 PWHIST = Some (PWHistList_to_StringX ?h)"
    using to_StringX_saving_not_empty [OF s]
    by (simp add: CItem_SetField_str_def CItem_SetField_def)
  have t: "PWHistList_to_StringX ?h =
           PWHistList_to_StringX ((history_before env r)
                        \<lparr>entries := drop (Suc (length (entries (history_before env r))) -
                                          maxEntries (history_before env r))
                                       (entries (history_before env r) @
                                        [old_password_entry env r pm ct])\<rparr>)"
    by (subst to_StringX_trim) (simp add: trim_addEntry, simp add: addEntry_def)
  from UpdatePassword_after_history [OF UpdatePasswordHistory_on [OF True assms(1,2)] x assms(3)]
  show ?thesis using True p t by simp
qed

lemma nat_numerals:
  "(2::nat) = Suc (Suc 0)" "(4::nat) = Suc (Suc (Suc (Suc 0)))"
  "(8::nat) = Suc (Suc (Suc (Suc (Suc (Suc (Suc (Suc 0)))))))"
  by simp_all

lemma hex_fixed_numeral:
  "hex_fixed 2 n = hex_fixed (Suc (Suc 0)) n" "hex_fixed 4 n = hex_fixed (Suc (Suc (Suc (Suc 0)))) n"
  "hex_fixed 8 n = hex_fixed (Suc (Suc (Suc (Suc (Suc (Suc (Suc (Suc 0)))))))) n"
  by (simp_all only: nat_numerals)

lemma bank_hyps:
  "GetPMTime True bank_entry = Inr 0" "GetCTime True bank_entry = Inr 0"
  "GetXTimeInt True bank_entry = Inr 0"
  by (simp_all add: GetPMTime_def GetCTime_def CItem_GetTime_def GetXTimeInt_def read_fixed_def
        bank_entry_def empty_item_def)

lemma bank_hb: "history_before env0 bank_entry = \<lparr>saving = True, maxEntries = 3, entries = []\<rparr>"
  by (simp add: history_before_def GetPWHistory_def GetField_def bank_entry_def empty_item_def
        PWHistList_of_StringX_def env0_def Let_def)

lemma bank_entry_old:
  "old_password_entry env0 bank_entry 0 0 =
     \<lparr>changetttdate = 0, changedate = ''Unknown'', password = ''p1''\<rparr>"
  by (simp add: old_password_entry_def env0_def GetPassword_def GetField_def bank_entry_def
        empty_item_def Let_def)

lemma bank_history:
  "PWHistList_to_StringX
     ((history_before env0 bank_entry)
        \<lparr>entries := drop (Suc (length (entries (history_before env0 bank_entry))) -
                          maxEntries (history_before env0 bank_entry))
                       (entries (history_before env0 bank_entry) @
                        [old_password_entry env0 bank_entry 0 0])\<rparr>) = ''10301000000000002p1''"
  unfolding bank_hb bank_entry_old
  by (simp add: PWHistList_to_StringX_def trim_excess_def Let_def hex_fixed_numeral hexdigits_def)

lemma full_hyps:
  "GetPMTime True full_history_entry = Inr 7" "GetCTime True full_history_entry = Inr 0"
  "GetXTimeInt True full_history_entry = Inr 0"
  by (simp_all add: GetPMTime_def GetCTime_def CItem_GetTime_def GetXTimeInt_def read_fixed_def
        full_history_entry_def empty_item_def ASSERT_def)

lemma hex_value_digits:
  "hex_value ''1'' = Some 1" "hex_value ''01'' = Some 1" "hex_value ''03'' = Some 3"
  "hex_value ''00000005'' = Some 5" "hex_value ''00000000'' = Some 0" "hex_value ''0002'' = Some 2"
  by (simp_all add: hex_value_def is_hex_digit_def hexval_def)

lemma parse_entries_1: "parse_entries env 1 s = parse_entries env (Suc 0) s"
  by (simp only: One_nat_def)

lemma parse_one_p1:
  "parse_entries env0 (Suc 0) ''000000000002p1'' =
     Some [\<lparr>changetttdate = 0, changedate = [], password = ''p1''\<rparr>]"
  by (simp add: hex_value_digits env0_def)

lemma parse_bank_result:
  "PWHistList_of_StringX env0 ''10301000000000002p1'' =
     \<lparr>saving = True, maxEntries = 3,
      entries = [\<lparr>changetttdate = 0, changedate = [], password = ''p1''\<rparr>]\<rparr>"
  by (simp add: PWHistList_of_StringX_def Let_def hex_value_digits env0_def)

lemma parse_one_p0:
  "parse_entries env0 (Suc 0) ''000000050002p0'' =
     Some [\<lparr>changetttdate = 5, changedate = ''00000005'', password = ''p0''\<rparr>]"
  by (simp add: hex_value_digits env0_def hex_fixed_numeral hexdigits_def)

lemma full_hb:
  "history_before env0 full_history_entry =
     \<lparr>saving = True, maxEntries = 1,
      entries = [\<lparr>changetttdate = 5, changedate = ''00000005'', password = ''p0''\<rparr>]\<rparr>"
  by (simp add: history_before_def GetPWHistory_def GetField_def full_history_entry_def
        empty_item_def PWHistList_of_StringX_def Let_def hex_value_digits env0_def
        hex_fixed_numeral hexdigits_def)

lemma full_entry_old:
  "old_password_entry env0 full_history_entry 7 0 =
     \<lparr>changetttdate = 7, changedate = ''00000007'', password = ''p1''\<rparr>"
  by (simp add: old_password_entry_def env0_def GetPassword_def GetField_def full_history_entry_def
        empty_item_def Let_def hex_fixed_numeral hexdigits_def)

lemma full_history:
  "PWHistList_to_StringX
     ((history_before env0 full_history_entry)
        \<lparr>entries := drop (Suc (length (entries (history_before env0 full_history_entry))) -
                          maxEntries (history_before env0 full_history_entry))
                       (entries (history_before env0 full_history_entry) @
                        [old_password_entry env0 full_history_entry 7 0])\<rparr>) = ''10101000000070002p1''"
  unfolding full_hb full_entry_old
  by (simp add: PWHistList_to_StringX_def trim_excess_def Let_def hex_fixed_numeral hexdigits_def)

lemma bank_saving: "saving (history_before env0 bank_entry)"
  by (simp add: bank_hb)

lemma to_StringX_addEntry:
  "PWHistList_to_StringX (addEntry h e) =
   PWHistList_to_StringX
     (h\<lparr>entries := drop (Suc (length (entries h)) - maxEntries h) (entries h @ [e])\<rparr>)"
  by (subst to_StringX_trim) (simp add: trim_addEntry, simp add: addEntry_def)

lemma bank_history_step:
  "UpdatePasswordHistory True env0 bank_entry =
     Inr (CItem_SetField_str bank_entry PWHIST ''10301000000000002p1'')"
  using UpdatePasswordHistory_on [OF bank_saving bank_hyps(1) bank_hyps(2)]
  by (simp only: to_StringX_addEntry bank_history)

lemma bank_update:
  "UpdatePassword True env0 1000 bank_entry ''p2'' = Inr bank_after"
  unfolding UpdatePassword_def bank_history_step
  by (simp add: bind_err_def Let_def SetPassword_def SetPMTime_def SetXTime_def CItem_SetTime_def
        CItem_SetField_str_def CItem_SetField_def GetXTimeInt_def read_fixed_def bank_entry_def
        bank_after_def empty_item_def fun_eq_iff)

text \<open>
  Claim C7, as amended.  On a record whose two times and expiry interval can be read
  (their fields have the lengths the readers assert), \<open>UpdatePassword\<close> with a new value
  at time \<open>now\<close> succeeds, the password then reads the new value and the password-modified
  time is \<open>now\<close>.  The
  history it starts from is the one of the record, with the two preferences in place of
  flag and maximum when the record has none.  When saving is off in it, the history field
  is unchanged.  When saving is on, one entry is appended, holding the old password and
  the time that password was set (the password-modified time before the update, or else
  the creation time), and the oldest entries are dropped first until the maximum holds.
\<close>

theorem UpdatePassword_records_history:
  assumes "GetPMTime dbg r = Inr pm" "GetCTime dbg r = Inr ct" "GetXTimeInt dbg r = Inr xint"
  shows "\<exists>r'. UpdatePassword dbg env now r new_password = Inr r' \<and>
           GetPassword r' = new_password \<and> GetPMTime dbg r' = Inr now \<and>
           m_fields r' PWHIST =
             (if saving (history_before env r)
              then Some (PWHistList_to_StringX ((history_before env r)
                     \<lparr>entries := drop (Suc (length (entries (history_before env r))) -
                                       maxEntries (history_before env r))
                                  (entries (history_before env r) @
                                   [old_password_entry env r pm ct])\<rparr>))
              else m_fields r PWHIST)"
  using assms by (rule UpdatePassword_history_result)

theorem UpdatePassword_records_history_witness:
  "GetPMTime True full_history_entry = Inr 7 \<and> GetCTime True full_history_entry = Inr 0 \<and>
   GetXTimeInt True full_history_entry = Inr 0 \<and>
   (\<exists>r'. UpdatePassword True env0 1000 full_history_entry ''p2'' = Inr r' \<and>
          GetPassword r' = ''p2'' \<and> GetPMTime True r' = Inr 1000 \<and>
          m_fields r' PWHIST = Some ''10101000000070002p1'')"
  using UpdatePassword_records_history [OF full_hyps, of env0 1000 "''p2''"]
  unfolding full_history
  by (simp add: full_hyps full_hb)

theorem UpdatePassword_bank_counterexample:
  "UpdatePassword True env0 1000 bank_entry ''p2'' = Inr bank_after \<and>
   GetPassword bank_after = ''p2'' \<and> GetPMTime True bank_after = Inr 1000 \<and>
   entries (PWHistList_of_StringX env0 (GetPWHistory bank_after)) =
     [\<lparr>changetttdate = 0, changedate = [], password = ''p1''\<rparr>] \<and>
   map changetttdate (entries (PWHistList_of_StringX env0 (GetPWHistory bank_after))) \<noteq> [1000]"
proof -
  have h: "GetPWHistory bank_after = ''10301000000000002p1''"
    by (simp add: GetPWHistory_def GetField_def bank_after_def empty_item_def)
  have p: "GetPassword bank_after = ''p2''"
    by (simp add: GetPassword_def GetField_def bank_after_def empty_item_def)
  have t: "GetPMTime True bank_after = Inr 1000"
    by (simp add: GetPMTime_def CItem_GetTime_def read_fixed_def bank_after_def empty_item_def
          ASSERT_def)
  show ?thesis
    by (simp add: bank_update h p t parse_bank_result)
qed

subsection \<open>Writing a record and reading it back\<close>

























lemma field_survives_uuid:
  "ft \<in> set [UUID, BASEUUID, ALIASUUID, SHORTCUTUUID, ATTREF] \<Longrightarrow>
   field_survives env tfl ft v = (length v = 16)"
  by (simp add: field_survives_def)

lemma field_survives_text:
  "ft \<in> set TextFields \<Longrightarrow>
   field_survives env tfl ft v =
     (v \<noteq> [] \<and> wcstombs env v \<noteq> [] \<and> FromUTF8 env (text_payload env v) = Some v)"
  by (auto simp: field_survives_def TextFields_def)

















































lemma text_ok_env0:
  "v \<noteq> [] \<Longrightarrow> last v \<noteq> CHR 0x00 \<Longrightarrow>
   wcstombs env0 v \<noteq> [] \<and> FromUTF8 env0 (text_payload env0 v) = Some v"
  by (simp add: env0_def text_payload_def Let_def last_conv_nth)

lemma dca_env0: "\<not> (sint (minDCA env0) \<le> - 1 \<and> - 1 \<le> sint (maxDCA env0))"
  by (simp add: env0_def)

lemma uuid_lengths: "length uuid_a = 16" "length uuid_b = 16"
  by (simp_all add: uuid_a_def uuid_b_def)

lemma base_entry_fields_survive: "fields_survive env0 tfl base_entry"
  by (simp add: fields_survive_def base_entry_def empty_item_def field_survives_uuid
        field_survives_text TextFields_def uuid_lengths text_ok_env0)

lemma conditions_base_V4: "round_trip_conditions V4 True env0 file_v4 base_entry"
  using base_entry_fields_survive [of 5]
  by (simp add: round_trip_conditions_def as_written_def dca_env0 file_v4_def)
     (simp add: base_entry_def empty_item_def id_slots_ok_def GetPassword_def GetField_def
        placeholder_shape_def)






lemma getInt32_putInt32 [simp]: "getInt32 (putInt32 i) = i"
proof -
  have "unat i mod 256 ^ 4 = unat i mod 2 ^ 32" by simp
  also have "\<dots> = unat i" using unsigned_less [of i, where 'a = nat] by simp
  finally show ?thesis
    by (simp add: getInt32_def putInt32_def le_nat_nat_le)
qed

lemma getInt16_putInt16 [simp]: "getInt16 (putInt16 i) = i"
proof -
  have "unat i mod 256 ^ 2 = unat i mod 2 ^ 16" by simp
  also have "\<dots> = unat i" using unsigned_less [of i, where 'a = nat] by simp
  finally show ?thesis
    by (simp add: getInt16_def putInt16_def le_nat_nat_le)
qed








end
